theory Spec2Isabelle
  imports Main "HOL-Library.Word"
begin

section \<open>The crypto layer of src/common/crypto.c\<close>

text \<open>
  The C file wraps OpenSSL behind two handle types, \<open>crypto_pk_env_t\<close> and
  \<open>crypto_cipher_env_t\<close>.  Handles and the objects they point to live in a store;
  a pointer is an address or NULL (\<open>None\<close>).  Every \<open>assert\<close> of the source is a
  branch of the model that ends in \<open>AssertFailed\<close> (assertions are compiled in);
  dereferencing or freeing memory that is not allocated ends in \<open>InvalidAccess\<close>.
  What OpenSSL, \<open>malloc\<close> and the file system answer is not decided by the file:
  each function of the model takes those answers as arguments.
\<close>

subsection \<open>Memory\<close>

type_synonym addr = nat
type_synonym byte = "8 word"

datatype fault = AssertFailed | InvalidAccess

text \<open>
  Modelled from the spec: the constant \<open>CRYPTO_PK_RSA\<close> is defined in crypto.h, which
  is not among the sources.  The spec has exactly one supported kind of key; the code
  only compares the \<open>type\<close> field with that constant, so every other integer is kept
  as \<open>PK_OTHER\<close>, the \<open>default\<close> branch of every \<open>switch\<close>.
\<close>

datatype pk_kind = CRYPTO_PK_RSA | PK_OTHER int

text \<open>
  The fields of OpenSSL's RSA object that the file reads: modulus, public exponent
  and the first prime factor (the private part the file tests for).  Each is a pointer
  to a big number, NULL while the component is unset.
\<close>

record RSA =
  rsa_n :: "int option"
  rsa_e :: "int option"
  rsa_p :: "int option"

text \<open>
  Modelled from the spec: \<open>crypto_pk_env_t\<close> is declared in crypto.h, which is not
  among the sources.  The spec gives a key handle a kind, a reference count and a
  key-material slot; the code uses the fields \<open>type\<close>, \<open>refs\<close>, \<open>key\<close> and
  \<open>aux\<close>.  The count is a C \<open>int\<close>, 32 bits in two's complement: \<open>++\<close> and
  \<open>--\<close> wrap around at its ends, and the comparison with 0 reads it as signed
  (\<open>sint\<close>).
\<close>

record crypto_pk_env_t =
  pk_type :: pk_kind
  refs :: "32 word"
  key :: "addr option"
  aux :: "addr option"

text \<open>What the program asks of its environment, in the order it happens.\<close>

datatype event =
    Free addr
  | RSA_freed addr
  | CTX_cleaned addr
  | Fopen string
  | Fclose
  | Log string
  | RSA_decrypted addr

text \<open>
  Modelled from the spec: the four constants \<open>CRYPTO_CIPHER_...\<close> are defined in
  crypto.h, which is not among the sources.  The spec's algorithm tag is an enumerated
  value; the code switches on the four constants, and an integer that is none of them
  is \<open>CIPHER_OTHER\<close>, the \<open>default\<close> branch of every \<open>switch\<close>.
\<close>

datatype cipher_kind =
    CRYPTO_CIPHER_IDENTITY
  | CRYPTO_CIPHER_DES
  | CRYPTO_CIPHER_RC4
  | CRYPTO_CIPHER_3DES
  | CIPHER_OTHER int

datatype EVP_CIPHER = EVP_enc_null | EVP_des_ofb | EVP_rc4 | EVP_des_ede_ofb

text \<open>A streaming context is a block of memory: as \<open>malloc\<close> left it, or initialised.\<close>

datatype EVP_CIPHER_CTX = CtxRaw | CtxInit

text \<open>
  Modelled from the spec: \<open>crypto_cipher_env_t\<close> is declared in crypto.h, which is not
  among the sources.  The spec gives a cipher handle a tag, a key buffer, an IV buffer
  and a streaming-context slot; the code uses the fields \<open>type\<close>, \<open>key\<close>, \<open>iv\<close>
  and \<open>aux\<close>.
\<close>

record crypto_cipher_env_t =
  ctype :: cipher_kind
  ckey :: "addr option"
  civ :: "addr option"
  caux :: "addr option"

text \<open>
  The store: one table for each type of object, the events so far, and the next
  address \<open>malloc\<close> hands out.  A byte that was never written is \<open>None\<close>.
\<close>

record world =
  pk_envs :: "addr \<Rightarrow> crypto_pk_env_t option"
  rsas :: "addr \<Rightarrow> RSA option"
  cipher_envs :: "addr \<Rightarrow> crypto_cipher_env_t option"
  ctxs :: "addr \<Rightarrow> EVP_CIPHER_CTX option"
  bufs :: "addr \<Rightarrow> byte option list option"
  trace :: "event list"
  brk :: addr

definition then_do :: "fault + 'a \<Rightarrow> ('a \<Rightarrow> fault + 'b) \<Rightarrow> fault + 'b" where
  "then_do m f = (case m of Inl e \<Rightarrow> Inl e | Inr x \<Rightarrow> f x)"

subsection \<open>What OpenSSL does with RSA objects\<close>

text \<open>
  \<open>RSA_new\<close> returns a fresh object with every component unset, or NULL;
  whether it succeeds is up to the environment (the flag \<open>ok\<close>).
\<close>

definition RSA_new :: "bool \<Rightarrow> world \<Rightarrow> addr option \<times> world" where
  "RSA_new ok w =
     (if ok
      then (Some (brk w),
            w\<lparr>rsas := (rsas w)(brk w \<mapsto> \<lparr>rsa_n = None, rsa_e = None, rsa_p = None\<rparr>),
              brk := brk w + 1\<rparr>)
      else (None, w))"

text \<open>\<open>RSA_free\<close> releases the object; on NULL it does nothing.\<close>

definition RSA_free :: "addr option \<Rightarrow> world \<Rightarrow> fault + world" where
  "RSA_free k w =
     (case k of
        None \<Rightarrow> Inr w
      | Some a \<Rightarrow>
          (case rsas w a of
             None \<Rightarrow> Inl InvalidAccess
           | Some r \<Rightarrow> Inr (w\<lparr>rsas := (rsas w)(a := None), trace := trace w @ [RSA_freed a]\<rparr>)))"

subsection \<open>Public-key handles\<close>

text \<open>
  \<open>crypto_new_pk_env\<close>: \<open>malloc_ok\<close> and \<open>rsa_ok\<close> say whether \<open>malloc\<close> and
  \<open>RSA_new\<close> succeed.
\<close>

definition crypto_new_pk_env :: "bool \<Rightarrow> bool \<Rightarrow> pk_kind \<Rightarrow> world \<Rightarrow> addr option \<times> world" where
  "crypto_new_pk_env malloc_ok rsa_ok type w =
     (if \<not> malloc_ok then (None, w)
      else
        let a = brk w;
            env = \<lparr>pk_type = type, refs = 1, key = None, aux = None\<rparr>;
            w1 = w\<lparr>pk_envs := (pk_envs w)(a \<mapsto> env), brk := a + 1\<rparr>
        in (case type of
              CRYPTO_PK_RSA \<Rightarrow>
                (case RSA_new rsa_ok w1 of
                   (None, w2) \<Rightarrow>
                     (None, w2\<lparr>pk_envs := (pk_envs w2)(a := None), trace := trace w2 @ [Free a]\<rparr>)
                 | (Some k, w2) \<Rightarrow>
                     (Some a, w2\<lparr>pk_envs := (pk_envs w2)(a \<mapsto> env\<lparr>key := Some k\<rparr>)\<rparr>))
            | PK_OTHER _ \<Rightarrow>
                (None, w1\<lparr>pk_envs := (pk_envs w1)(a := None), trace := trace w1 @ [Free a]\<rparr>)))"

definition crypto_free_pk_env :: "addr option \<Rightarrow> world \<Rightarrow> fault + world" where
  "crypto_free_pk_env env w =
     (case env of
        None \<Rightarrow> Inl AssertFailed
      | Some a \<Rightarrow>
          (case pk_envs w a of
             None \<Rightarrow> Inl InvalidAccess
           | Some e \<Rightarrow>
               let e' = e\<lparr>refs := refs e - 1\<rparr>;
                   w1 = w\<lparr>pk_envs := (pk_envs w)(a \<mapsto> e')\<rparr>
               in if 0 < sint (refs e') then Inr w1
                  else
                    then_do
                      (case pk_type e' of
                         CRYPTO_PK_RSA \<Rightarrow>
                           (if key e' \<noteq> None then RSA_free (key e') w1 else Inr w1)
                       | PK_OTHER _ \<Rightarrow> Inr w1)
                      (\<lambda>w2. Inr (w2\<lparr>pk_envs := (pk_envs w2)(a := None),
                                      trace := trace w2 @ [Free a]\<rparr>))))"

definition crypto_pk_dup_key :: "addr option \<Rightarrow> world \<Rightarrow> fault + (addr option \<times> world)" where
  "crypto_pk_dup_key env w =
     (case env of
        None \<Rightarrow> Inl AssertFailed
      | Some a \<Rightarrow>
          (case pk_envs w a of
             None \<Rightarrow> Inl InvalidAccess
           | Some e \<Rightarrow>
               if key e = None then Inl AssertFailed
               else
                 (case pk_type e of
                    CRYPTO_PK_RSA \<Rightarrow>
                      Inr (Some a, w\<lparr>pk_envs := (pk_envs w)(a \<mapsto> e\<lparr>refs := refs e + 1\<rparr>)\<rparr>)
                  | PK_OTHER _ \<Rightarrow> Inr (None, w))))"

text \<open>
  A key that OpenSSL produced (generated or parsed) is a new object in the store;
  \<open>None\<close> is the NULL it returns when it fails.
\<close>

definition store_rsa :: "RSA option \<Rightarrow> world \<Rightarrow> addr option \<times> world" where
  "store_rsa r w =
     (case r of
        None \<Rightarrow> (None, w)
      | Some v \<Rightarrow> (Some (brk w), w\<lparr>rsas := (rsas w)(brk w \<mapsto> v), brk := brk w + 1\<rparr>))"

text \<open>\<open>gen\<close> is what \<open>RSA_generate_key(1024, 65537, NULL, NULL)\<close> returns.\<close>

definition crypto_pk_generate_key :: "RSA option \<Rightarrow> addr option \<Rightarrow> world \<Rightarrow> fault + (int \<times> world)" where
  "crypto_pk_generate_key gen env w =
     (case env of
        None \<Rightarrow> Inl AssertFailed
      | Some a \<Rightarrow>
          (case pk_envs w a of
             None \<Rightarrow> Inl InvalidAccess
           | Some e \<Rightarrow>
               (case pk_type e of
                  CRYPTO_PK_RSA \<Rightarrow>
                    then_do (if key e \<noteq> None then RSA_free (key e) w else Inr w)
                      (\<lambda>w1. case store_rsa gen w1 of
                               (k, w2) \<Rightarrow>
                                 let w3 = w2\<lparr>pk_envs := (pk_envs w2)(a \<mapsto> e\<lparr>key := k\<rparr>)\<rparr>
                                 in if k = None then Inr (- 1, w3) else Inr (0, w3))
                | PK_OTHER _ \<Rightarrow> Inr (- 1, w))))"

text \<open>
  \<open>src\<close> is the open stream (its remaining contents), or NULL; \<open>pem\<close> is
  \<open>PEM_read_RSAPrivateKey\<close>, which parses it.
\<close>

definition crypto_pk_read_private_key_from_file ::
  "(string \<Rightarrow> RSA option) \<Rightarrow> addr option \<Rightarrow> string option \<Rightarrow> world \<Rightarrow> fault + (int \<times> world)" where
  "crypto_pk_read_private_key_from_file pem env src w =
     (case (env, src) of
        (Some a, Some text) \<Rightarrow>
          (case pk_envs w a of
             None \<Rightarrow> Inl InvalidAccess
           | Some e \<Rightarrow>
               (case pk_type e of
                  CRYPTO_PK_RSA \<Rightarrow>
                    then_do (if key e \<noteq> None then RSA_free (key e) w else Inr w)
                      (\<lambda>w1. case store_rsa (pem text) w1 of
                               (k, w2) \<Rightarrow>
                                 let w3 = w2\<lparr>pk_envs := (pk_envs w2)(a \<mapsto> e\<lparr>key := k\<rparr>)\<rparr>
                                 in if k = None then Inr (- 1, w3) else Inr (0, w3))
                | PK_OTHER _ \<Rightarrow> Inr (- 1, w)))
      | _ \<Rightarrow> Inl AssertFailed)"

text \<open>The same for a public key; \<open>pem\<close> is \<open>PEM_read_RSAPublicKey\<close>.\<close>

definition crypto_pk_read_public_key_from_file ::
  "(string \<Rightarrow> RSA option) \<Rightarrow> addr option \<Rightarrow> string option \<Rightarrow> world \<Rightarrow> fault + (int \<times> world)" where
  "crypto_pk_read_public_key_from_file pem env src w =
     (case (env, src) of
        (Some a, Some text) \<Rightarrow>
          (case pk_envs w a of
             None \<Rightarrow> Inl InvalidAccess
           | Some e \<Rightarrow>
               (case pk_type e of
                  CRYPTO_PK_RSA \<Rightarrow>
                    then_do (if key e \<noteq> None then RSA_free (key e) w else Inr w)
                      (\<lambda>w1. case store_rsa (pem text) w1 of
                               (k, w2) \<Rightarrow>
                                 let w3 = w2\<lparr>pk_envs := (pk_envs w2)(a \<mapsto> e\<lparr>key := k\<rparr>)\<rparr>
                                 in if k = None then Inr (- 1, w3) else Inr (0, w3))
                | PK_OTHER _ \<Rightarrow> Inr (- 1, w)))
      | _ \<Rightarrow> Inl AssertFailed)"

text \<open>
  \<open>src\<close> points to at least \<open>len\<close> bytes, which go through a memory BIO into
  \<open>PEM_read_bio_RSAPublicKey\<close> (\<open>pem\<close>).  The old key is handed to \<open>RSA_free\<close>
  without a test.
\<close>

definition crypto_pk_read_public_key_from_string ::
  "(string \<Rightarrow> RSA option) \<Rightarrow> addr option \<Rightarrow> string option \<Rightarrow> int \<Rightarrow> world \<Rightarrow> fault + (int \<times> world)" where
  "crypto_pk_read_public_key_from_string pem env src len w =
     (case (env, src) of
        (Some a, Some text) \<Rightarrow>
          (case pk_envs w a of
             None \<Rightarrow> Inl InvalidAccess
           | Some e \<Rightarrow>
               (case pk_type e of
                  CRYPTO_PK_RSA \<Rightarrow>
                    if int (length text) < len then Inl InvalidAccess
                    else
                      then_do (RSA_free (key e) w)
                        (\<lambda>w1. case store_rsa (pem (take (nat len) text)) w1 of
                                 (k, w2) \<Rightarrow>
                                   let w3 = w2\<lparr>pk_envs := (pk_envs w2)(a \<mapsto> e\<lparr>key := k\<rparr>)\<rparr>
                                   in if k = None then Inr (- 1, w3) else Inr (0, w3))
                | PK_OTHER _ \<Rightarrow> Inr (- 1, w)))
      | _ \<Rightarrow> Inl AssertFailed)"

text \<open>\<open>check\<close> is \<open>RSA_check_key\<close>: 1 for a consistent key, 0 for an inconsistent one, -1 on error.\<close>

definition crypto_pk_check_key :: "(RSA \<Rightarrow> int) \<Rightarrow> addr option \<Rightarrow> world \<Rightarrow> fault + int" where
  "crypto_pk_check_key check env w =
     (case env of
        None \<Rightarrow> Inl AssertFailed
      | Some a \<Rightarrow>
          (case pk_envs w a of
             None \<Rightarrow> Inl InvalidAccess
           | Some e \<Rightarrow>
               (case pk_type e of
                  CRYPTO_PK_RSA \<Rightarrow>
                    (case key e of
                       None \<Rightarrow> Inl InvalidAccess
                     | Some k \<Rightarrow>
                         (case rsas w k of
                            None \<Rightarrow> Inl InvalidAccess
                          | Some r \<Rightarrow> Inr (check r)))
                | PK_OTHER _ \<Rightarrow> Inr (- 1))))"

text \<open>C's \<open>strspn\<close>: the length of the longest prefix made of characters of \<open>accept\<close>.\<close>

definition strspn :: "string \<Rightarrow> string \<Rightarrow> nat" where
  "strspn s accept = length (takeWhile (\<lambda>c. c \<in> set accept) s)"

definition log_event :: "string \<Rightarrow> world \<Rightarrow> world" where
  "log_event msg w = w\<lparr>trace := trace w @ [Log msg]\<rparr>"

text \<open>
  \<open>legal\<close> is the macro \<open>CONFIG_LEGAL_FILENAME_CHARACTERS\<close>, defined outside the
  file; \<open>fs\<close> is the file system (the contents of each file that \<open>fopen\<close> can open
  for reading).
\<close>

definition crypto_pk_read_private_key_from_filename ::
  "string \<Rightarrow> (string \<Rightarrow> string option) \<Rightarrow> (string \<Rightarrow> RSA option) \<Rightarrow> (RSA \<Rightarrow> int) \<Rightarrow>
   addr option \<Rightarrow> string option \<Rightarrow> world \<Rightarrow> fault + (int \<times> world)" where
  "crypto_pk_read_private_key_from_filename legal fs pem check env keyfile w =
     (case (env, keyfile) of
        (Some a, Some path) \<Rightarrow>
          if strspn path legal = length path
          then
            let w0 = w\<lparr>trace := trace w @ [Fopen path]\<rparr>
            in (case fs path of
                  None \<Rightarrow> Inr (- 1, w0)
                | Some text \<Rightarrow>
                    then_do (crypto_pk_read_private_key_from_file pem env (Some text) w0)
                      (\<lambda>(retval, w1).
                         let w2 = w1\<lparr>trace := trace w1 @ [Fclose]\<rparr>
                         in if retval = - 1
                            then Inr (- 1, log_event ''Error reading private key'' w2)
                            else
                              then_do (crypto_pk_check_key check env w2)
                                (\<lambda>retval.
                                   if retval = 0
                                   then Inr (- 1, log_event ''Private key read but is invalid'' w2)
                                   else if retval = - 1
                                   then Inr (- 1, log_event ''Private key read but validity checking failed'' w2)
                                   else if retval = 1
                                   then Inr (0, w2)
                                   else Inr (- 1, w2))))
          else Inr (- 1, w)
      | _ \<Rightarrow> Inl AssertFailed)"

text \<open>OpenSSL's \<open>BN_cmp\<close> on two big numbers.\<close>

definition BN_cmp :: "int \<Rightarrow> int \<Rightarrow> int" where
  "BN_cmp x y = (if x < y then - 1 else if x = y then 0 else 1)"

definition crypto_pk_cmp_keys :: "addr option \<Rightarrow> addr option \<Rightarrow> world \<Rightarrow> fault + int" where
  "crypto_pk_cmp_keys a b w =
     (case (a, b) of
        (Some pa, Some pb) \<Rightarrow>
          (case (pk_envs w pa, pk_envs w pb) of
             (Some ea, Some eb) \<Rightarrow>
               (case (key ea, key eb) of
                  (Some ka, Some kb) \<Rightarrow>
                    if pk_type ea \<noteq> pk_type eb then Inr (- 1)
                    else
                      (case pk_type ea of
                         CRYPTO_PK_RSA \<Rightarrow>
                           (case (rsas w ka, rsas w kb) of
                              (Some ra, Some rb) \<Rightarrow>
                                (case (rsa_n ra, rsa_e ra, rsa_n rb, rsa_e rb) of
                                   (Some na, Some xa, Some nb, Some xb) \<Rightarrow>
                                     let result = BN_cmp na nb
                                     in if result \<noteq> 0 then Inr result else Inr (BN_cmp xa xb)
                                 | _ \<Rightarrow> Inl AssertFailed)
                            | _ \<Rightarrow> Inl InvalidAccess)
                       | PK_OTHER _ \<Rightarrow> Inr (- 1))
                | _ \<Rightarrow> Inr (- 1))
           | _ \<Rightarrow> Inl InvalidAccess)
      | _ \<Rightarrow> Inr (- 1))"

text \<open>
  \<open>dec\<close> is the return value of \<open>RSA_private_decrypt\<close> for a key, an input, its
  length and a padding mode; the call itself is an event.
\<close>

definition crypto_pk_private_decrypt ::
  "(RSA \<Rightarrow> byte list \<Rightarrow> int \<Rightarrow> int \<Rightarrow> int) \<Rightarrow> addr option \<Rightarrow> byte list option \<Rightarrow> int \<Rightarrow>
   addr option \<Rightarrow> int \<Rightarrow> world \<Rightarrow> fault + (int \<times> world)" where
  "crypto_pk_private_decrypt dec env from fromlen to padding w =
     (case (env, from, to) of
        (Some a, Some input, Some out) \<Rightarrow>
          (case pk_envs w a of
             None \<Rightarrow> Inl InvalidAccess
           | Some e \<Rightarrow>
               (case pk_type e of
                  CRYPTO_PK_RSA \<Rightarrow>
                    (case key e of
                       None \<Rightarrow> Inl InvalidAccess
                     | Some k \<Rightarrow>
                         (case rsas w k of
                            None \<Rightarrow> Inl InvalidAccess
                          | Some r \<Rightarrow>
                              if rsa_p r = None then Inr (- 1, w)
                              else Inr (dec r input fromlen padding,
                                        w\<lparr>trace := trace w @ [RSA_decrypted k]\<rparr>)))
                | PK_OTHER _ \<Rightarrow> Inr (- 1, w)))
      | _ \<Rightarrow> Inl AssertFailed)"

subsection \<open>The algorithm registry\<close>

definition crypto_cipher_iv_length :: "cipher_kind \<Rightarrow> fault + int" where
  "crypto_cipher_iv_length type =
     (case type of
        CRYPTO_CIPHER_IDENTITY \<Rightarrow> Inr 0
      | CRYPTO_CIPHER_DES \<Rightarrow> Inr 8
      | CRYPTO_CIPHER_RC4 \<Rightarrow> Inr 16
      | CRYPTO_CIPHER_3DES \<Rightarrow> Inr 8
      | CIPHER_OTHER _ \<Rightarrow> Inl AssertFailed)"

definition crypto_cipher_key_length :: "cipher_kind \<Rightarrow> fault + int" where
  "crypto_cipher_key_length type =
     (case type of
        CRYPTO_CIPHER_IDENTITY \<Rightarrow> Inr 0
      | CRYPTO_CIPHER_DES \<Rightarrow> Inr 8
      | CRYPTO_CIPHER_RC4 \<Rightarrow> Inr 16
      | CRYPTO_CIPHER_3DES \<Rightarrow> Inr 16
      | CIPHER_OTHER _ \<Rightarrow> Inl AssertFailed)"

definition crypto_cipher_evp_cipher :: "cipher_kind \<Rightarrow> int \<Rightarrow> EVP_CIPHER option" where
  "crypto_cipher_evp_cipher type enc =
     (case type of
        CRYPTO_CIPHER_IDENTITY \<Rightarrow> Some EVP_enc_null
      | CRYPTO_CIPHER_DES \<Rightarrow> Some EVP_des_ofb
      | CRYPTO_CIPHER_RC4 \<Rightarrow> Some EVP_rc4
      | CRYPTO_CIPHER_3DES \<Rightarrow> Some EVP_des_ede_ofb
      | CIPHER_OTHER _ \<Rightarrow> None)"

subsection \<open>Allocation\<close>

text \<open>
  \<open>malloc\<close> of a byte buffer and of a streaming context; \<open>ok\<close> says whether the
  allocation succeeds.  \<open>free\<close> of a block that is not allocated is an invalid access.
\<close>

definition malloc_buf :: "bool \<Rightarrow> nat \<Rightarrow> world \<Rightarrow> addr option \<times> world" where
  "malloc_buf ok n w =
     (if ok
      then (Some (brk w), w\<lparr>bufs := (bufs w)(brk w \<mapsto> replicate n None), brk := brk w + 1\<rparr>)
      else (None, w))"

definition malloc_ctx :: "bool \<Rightarrow> world \<Rightarrow> addr option \<times> world" where
  "malloc_ctx ok w =
     (if ok
      then (Some (brk w), w\<lparr>ctxs := (ctxs w)(brk w \<mapsto> CtxRaw), brk := brk w + 1\<rparr>)
      else (None, w))"

definition free_buf :: "addr \<Rightarrow> world \<Rightarrow> fault + world" where
  "free_buf p w =
     (case bufs w p of
        None \<Rightarrow> Inl InvalidAccess
      | Some b \<Rightarrow> Inr (w\<lparr>bufs := (bufs w)(p := None), trace := trace w @ [Free p]\<rparr>))"

definition free_ctx :: "addr \<Rightarrow> world \<Rightarrow> fault + world" where
  "free_ctx p w =
     (case ctxs w p of
        None \<Rightarrow> Inl InvalidAccess
      | Some c \<Rightarrow> Inr (w\<lparr>ctxs := (ctxs w)(p := None), trace := trace w @ [Free p]\<rparr>))"

definition free_cipher_env :: "addr \<Rightarrow> world \<Rightarrow> fault + world" where
  "free_cipher_env p w =
     (case cipher_envs w p of
        None \<Rightarrow> Inl InvalidAccess
      | Some e \<Rightarrow> Inr (w\<lparr>cipher_envs := (cipher_envs w)(p := None), trace := trace w @ [Free p]\<rparr>))"

text \<open>\<open>EVP_CIPHER_CTX_init\<close> clears the context it is given, which it dereferences.\<close>

definition EVP_CIPHER_CTX_init :: "addr option \<Rightarrow> world \<Rightarrow> fault + world" where
  "EVP_CIPHER_CTX_init p w =
     (case p of
        None \<Rightarrow> Inl InvalidAccess
      | Some x \<Rightarrow>
          (case ctxs w x of
             None \<Rightarrow> Inl InvalidAccess
           | Some c \<Rightarrow> Inr (w\<lparr>ctxs := (ctxs w)(x \<mapsto> CtxInit)\<rparr>)))"

definition EVP_CIPHER_CTX_cleanup :: "addr \<Rightarrow> world \<Rightarrow> fault + world" where
  "EVP_CIPHER_CTX_cleanup x w =
     (case ctxs w x of
        None \<Rightarrow> Inl InvalidAccess
      | Some c \<Rightarrow> Inr (w\<lparr>ctxs := (ctxs w)(x \<mapsto> CtxInit), trace := trace w @ [CTX_cleaned x]\<rparr>))"

text \<open>
  \<open>memcpy\<close> of \<open>n\<close> bytes from the input \<open>src\<close> to the buffer at \<open>dst\<close>; reading or
  writing beyond either is an invalid access.
\<close>

definition memcpy :: "addr \<Rightarrow> byte list \<Rightarrow> nat \<Rightarrow> world \<Rightarrow> fault + world" where
  "memcpy dst src n w =
     (case bufs w dst of
        None \<Rightarrow> Inl InvalidAccess
      | Some b \<Rightarrow>
          if length b < n \<or> length src < n then Inl InvalidAccess
          else Inr (w\<lparr>bufs := (bufs w)(dst \<mapsto> map Some (take n src) @ drop n b)\<rparr>))"

subsection \<open>Cipher handles\<close>

text \<open>The code after the label \<open>err\<close> of \<open>crypto_new_cipher_env\<close>.\<close>

definition new_cipher_env_err :: "addr \<Rightarrow> world \<Rightarrow> fault + (addr option \<times> world)" where
  "new_cipher_env_err a w =
     (case cipher_envs w a of
        None \<Rightarrow> Inl InvalidAccess
      | Some e \<Rightarrow>
          then_do (case ckey e of Some k \<Rightarrow> free_buf k w | None \<Rightarrow> Inr w)
            (\<lambda>w1. then_do (case civ e of Some i \<Rightarrow> free_buf i w1 | None \<Rightarrow> Inr w1)
              (\<lambda>w2. then_do (case caux e of Some x \<Rightarrow> free_ctx x w2 | None \<Rightarrow> Inr w2)
                (\<lambda>w3. then_do (free_cipher_env a w3)
                  (\<lambda>w4. Inr (None, w4))))))"

definition set_caux :: "addr \<Rightarrow> addr option \<Rightarrow> world \<Rightarrow> world" where
  "set_caux a p w = w\<lparr>cipher_envs := (cipher_envs w)(a := map_option (\<lambda>e. e\<lparr>caux := p\<rparr>) (cipher_envs w a))\<rparr>"

definition set_civ :: "addr \<Rightarrow> addr option \<Rightarrow> world \<Rightarrow> world" where
  "set_civ a p w = w\<lparr>cipher_envs := (cipher_envs w)(a := map_option (\<lambda>e. e\<lparr>civ := p\<rparr>) (cipher_envs w a))\<rparr>"

definition set_ckey :: "addr \<Rightarrow> addr option \<Rightarrow> world \<Rightarrow> world" where
  "set_ckey a p w = w\<lparr>cipher_envs := (cipher_envs w)(a := map_option (\<lambda>e. e\<lparr>ckey := p\<rparr>) (cipher_envs w a))\<rparr>"

text \<open>
  \<open>crypto_new_cipher_env\<close>: the four flags say whether the \<open>malloc\<close> of the handle,
  of the context, of the IV and of the key succeeds.  The result of the second
  \<open>malloc\<close> goes to \<open>EVP_CIPHER_CTX_init\<close> unchecked.  The function is cut at
  its two guarded allocations: \<open>new_cipher_env_key\<close> is the last statement pair
  (key buffer, then \<open>return env\<close>), \<open>new_cipher_env_iv\<close> the one before it.
\<close>

definition new_cipher_env_key :: "addr \<Rightarrow> bool \<Rightarrow> int \<Rightarrow> world \<Rightarrow> fault + (addr option \<times> world)" where
  "new_cipher_env_key a key_ok key_len w =
     (if key_len \<noteq> 0
      then (case malloc_buf key_ok (nat key_len) w of
              (k, w1) \<Rightarrow>
                if k = None then new_cipher_env_err a (set_ckey a k w1)
                else Inr (Some a, set_ckey a k w1))
      else Inr (Some a, w))"

definition new_cipher_env_iv ::
  "addr \<Rightarrow> bool \<Rightarrow> bool \<Rightarrow> int \<Rightarrow> int \<Rightarrow> world \<Rightarrow> fault + (addr option \<times> world)" where
  "new_cipher_env_iv a iv_ok key_ok iv_len key_len w =
     (if iv_len \<noteq> 0
      then (case malloc_buf iv_ok (nat iv_len) w of
              (i, w1) \<Rightarrow>
                if i = None then new_cipher_env_err a (set_civ a i w1)
                else new_cipher_env_key a key_ok key_len (set_civ a i w1))
      else new_cipher_env_key a key_ok key_len w)"

definition crypto_new_cipher_env ::
  "bool \<Rightarrow> bool \<Rightarrow> bool \<Rightarrow> bool \<Rightarrow> cipher_kind \<Rightarrow> world \<Rightarrow> fault + (addr option \<times> world)" where
  "crypto_new_cipher_env env_ok aux_ok iv_ok key_ok type w =
     (if \<not> env_ok then Inr (None, w)
      else
        let a = brk w;
            w0 = w\<lparr>cipher_envs :=
                     (cipher_envs w)(a \<mapsto> \<lparr>ctype = type, ckey = None, civ = None, caux = None\<rparr>),
                   brk := a + 1\<rparr>
        in then_do (crypto_cipher_iv_length type)
             (\<lambda>iv_len. then_do (crypto_cipher_key_length type)
               (\<lambda>key_len.
                  if crypto_cipher_evp_cipher type 0 = None then new_cipher_env_err a w0
                  else
                    (case malloc_ctx aux_ok w0 of
                       (x, w1) \<Rightarrow>
                         then_do (EVP_CIPHER_CTX_init x (set_caux a x w1))
                           (\<lambda>w2. new_cipher_env_iv a iv_ok key_ok iv_len key_len w2)))))"

definition crypto_free_cipher_env :: "addr option \<Rightarrow> world \<Rightarrow> fault + world" where
  "crypto_free_cipher_env env w =
     (case env of
        None \<Rightarrow> Inl AssertFailed
      | Some a \<Rightarrow>
          (case cipher_envs w a of
             None \<Rightarrow> Inl InvalidAccess
           | Some e \<Rightarrow>
               then_do
                 (if crypto_cipher_evp_cipher (ctype e) 0 \<noteq> None
                  then (case caux e of
                          None \<Rightarrow> Inl AssertFailed
                        | Some x \<Rightarrow> EVP_CIPHER_CTX_cleanup x w)
                  else Inr w)
                 (\<lambda>w1. then_do (case caux e of Some x \<Rightarrow> free_ctx x w1 | None \<Rightarrow> Inr w1)
                   (\<lambda>w2. then_do (case civ e of Some i \<Rightarrow> free_buf i w2 | None \<Rightarrow> Inr w2)
                     (\<lambda>w3. then_do (case ckey e of Some k \<Rightarrow> free_buf k w3 | None \<Rightarrow> Inr w3)
                       (\<lambda>w4. free_cipher_env a w4))))))"

definition crypto_cipher_set_iv :: "addr option \<Rightarrow> byte list option \<Rightarrow> world \<Rightarrow> fault + (int \<times> world)" where
  "crypto_cipher_set_iv env iv w =
     (case (env, iv) of
        (Some a, Some src) \<Rightarrow>
          (case cipher_envs w a of
             None \<Rightarrow> Inl InvalidAccess
           | Some e \<Rightarrow>
               then_do (crypto_cipher_iv_length (ctype e))
                 (\<lambda>iv_len.
                    if iv_len = 0 then Inr (0, w)
                    else
                      (case civ e of
                         None \<Rightarrow> Inr (- 1, w)
                       | Some p \<Rightarrow> then_do (memcpy p src (nat iv_len) w) (\<lambda>w1. Inr (0, w1)))))
      | _ \<Rightarrow> Inl AssertFailed)"

definition crypto_cipher_set_key :: "addr option \<Rightarrow> byte list option \<Rightarrow> world \<Rightarrow> fault + (int \<times> world)" where
  "crypto_cipher_set_key env key_in w =
     (case (env, key_in) of
        (Some a, Some src) \<Rightarrow>
          (case cipher_envs w a of
             None \<Rightarrow> Inl InvalidAccess
           | Some e \<Rightarrow>
               then_do (crypto_cipher_key_length (ctype e))
                 (\<lambda>key_len.
                    if key_len = 0 then Inr (0, w)
                    else
                      (case ckey e of
                         None \<Rightarrow> Inr (- 1, w)
                       | Some p \<Rightarrow> then_do (memcpy p src (nat key_len) w) (\<lambda>w1. Inr (0, w1)))))
      | _ \<Rightarrow> Inl AssertFailed)"

subsection \<open>Random bytes\<close>

text \<open>
  \<open>RAND_bytes\<close> and \<open>RAND_pseudo_bytes\<close> belong to OpenSSL: given the store, the
  destination and the count (converted from \<open>unsigned int\<close> to \<open>int\<close>), the
  provider \<open>prov\<close> returns its status and the store as it left it.
\<close>

definition crypto_rand ::
  "(world \<Rightarrow> addr \<Rightarrow> int \<Rightarrow> int \<times> world) \<Rightarrow> 32 word \<Rightarrow> addr option \<Rightarrow> world \<Rightarrow> fault + (int \<times> world)" where
  "crypto_rand prov n to w =
     (case to of
        None \<Rightarrow> Inl AssertFailed
      | Some p \<Rightarrow>
          (case prov w p (sint n) of
             (r, w1) \<Rightarrow> Inr (if r \<noteq> 1 then 1 else 0, w1)))"

definition crypto_pseudo_rand ::
  "(world \<Rightarrow> addr \<Rightarrow> int \<Rightarrow> int \<times> world) \<Rightarrow> 32 word \<Rightarrow> addr option \<Rightarrow> world \<Rightarrow> fault + (int \<times> world)" where
  "crypto_pseudo_rand prov n to w =
     (case to of
        None \<Rightarrow> Inl AssertFailed
      | Some p \<Rightarrow>
          (case prov w p (sint n) of
             (r, w1) \<Rightarrow> Inr (if r = - 1 then 1 else 0, w1)))"

subsection \<open>Notions used to state the properties\<close>

text \<open>
  The events that release an optional block and an optional RSA object, and whether
  one block was released before another in a trace.
\<close>

definition free_events :: "addr option \<Rightarrow> event list" where
  "free_events p = (case p of None \<Rightarrow> [] | Some x \<Rightarrow> [Free x])"

definition rsa_free_events :: "addr option \<Rightarrow> event list" where
  "rsa_free_events k = (case k of None \<Rightarrow> [] | Some p \<Rightarrow> [RSA_freed p])"

definition freed_before :: "addr \<Rightarrow> addr \<Rightarrow> event list \<Rightarrow> bool" where
  "freed_before p q tr = (Free q \<in> set (dropWhile (\<lambda>ev. ev \<noteq> Free p) tr) \<and> p \<noteq> q)"

text \<open>
  A buffer pointer fits a length: NULL for length 0, otherwise an allocated block of
  exactly that many bytes.
\<close>

definition buffer_sized :: "world \<Rightarrow> addr option \<Rightarrow> int \<Rightarrow> bool" where
  "buffer_sized w p n =
     (if n = 0 then p = None
      else case p of
             None \<Rightarrow> False
           | Some k \<Rightarrow> map_option length (bufs w k) = Some (nat n))"

text \<open>The first \<open>n\<close> bytes of the block at \<open>p\<close> have been written.\<close>

definition written :: "world \<Rightarrow> addr \<Rightarrow> nat \<Rightarrow> bool" where
  "written w p n =
     (case bufs w p of
        None \<Rightarrow> n = 0
      | Some b \<Rightarrow> n \<le> length b \<and> list_all (\<lambda>x. x \<noteq> None) (take n b))"

text \<open>
  What \<open>malloc\<close> guarantees about the addresses it has not handed out yet: nothing
  lives there.
\<close>

definition unused_from_brk :: "world \<Rightarrow> bool" where
  "unused_from_brk w =
     (\<forall>p\<ge>brk w. pk_envs w p = None \<and> rsas w p = None \<and> cipher_envs w p = None
        \<and> ctxs w p = None \<and> bufs w p = None)"

subsection \<open>Example stores\<close>

text \<open>The store before anything is allocated, and the store after one key handle was created.\<close>

definition empty_world :: world where
  "empty_world =
     \<lparr>pk_envs = (\<lambda>_. None), rsas = (\<lambda>_. None), cipher_envs = (\<lambda>_. None),
      ctxs = (\<lambda>_. None), bufs = (\<lambda>_. None), trace = [], brk = 0\<rparr>"

definition fresh_pk_world :: world where
  "fresh_pk_world = snd (crypto_new_pk_env True True CRYPTO_PK_RSA empty_world)"

text \<open>
  Two handles with loaded keys, a private key at 0 and a public-only key at 2; the
  same with the key slot of the first handle empty; the fresh handle after a failed
  \<open>crypto_pk_generate_key\<close>; the fresh handle with its count at the largest
  \<open>int\<close>; and two handles as \<open>crypto_new_pk_env\<close> leaves them.
\<close>

definition private_key_example :: RSA where
  "private_key_example = \<lparr>rsa_n = Some 3233, rsa_e = Some 17, rsa_p = Some 61\<rparr>"

definition public_key_example :: RSA where
  "public_key_example = \<lparr>rsa_n = Some 3127, rsa_e = Some 17, rsa_p = None\<rparr>"

definition keyed_pk_world :: world where
  "keyed_pk_world =
     empty_world\<lparr>pk_envs := [0 \<mapsto> \<lparr>pk_type = CRYPTO_PK_RSA, refs = 1, key = Some 1, aux = None\<rparr>,
                              2 \<mapsto> \<lparr>pk_type = CRYPTO_PK_RSA, refs = 1, key = Some 3, aux = None\<rparr>],
                 rsas := [1 \<mapsto> private_key_example, 3 \<mapsto> public_key_example],
                 brk := 4\<rparr>"

definition emptied_pk_world :: world where
  "emptied_pk_world =
     keyed_pk_world\<lparr>pk_envs := (pk_envs keyed_pk_world)
       (0 \<mapsto> \<lparr>pk_type = CRYPTO_PK_RSA, refs = 1, key = None, aux = None\<rparr>)\<rparr>"

definition emptied_fresh_world :: world where
  "emptied_fresh_world =
     fresh_pk_world\<lparr>rsas := (rsas fresh_pk_world)(1 := None), trace := [RSA_freed 1],
       pk_envs := (pk_envs fresh_pk_world)
         (0 \<mapsto> \<lparr>pk_type = CRYPTO_PK_RSA, refs = 1, key = None, aux = None\<rparr>)\<rparr>"

definition saturated_pk_world :: world where
  "saturated_pk_world =
     fresh_pk_world\<lparr>pk_envs := (pk_envs fresh_pk_world)
       (0 \<mapsto> \<lparr>pk_type = CRYPTO_PK_RSA, refs = 2147483647, key = Some 1, aux = None\<rparr>)\<rparr>"

definition two_fresh_pk_world :: world where
  "two_fresh_pk_world = snd (crypto_new_pk_env True True CRYPTO_PK_RSA fresh_pk_world)"

text \<open>
  A DES handle as \<open>crypto_new_cipher_env\<close> builds it in the empty store; a handle of
  the identity cipher, which has no buffers; a DES handle whose buffers were never
  allocated; and a DES handle without a streaming context.
\<close>

definition des_cipher_world :: world where
  "des_cipher_world =
     empty_world\<lparr>cipher_envs := [0 \<mapsto> \<lparr>ctype = CRYPTO_CIPHER_DES, ckey = Some 3, civ = Some 2, caux = Some 1\<rparr>],
                 ctxs := [1 \<mapsto> CtxInit],
                 bufs := [2 \<mapsto> replicate 8 None, 3 \<mapsto> replicate 8 None],
                 brk := 4\<rparr>"

definition identity_cipher_world :: world where
  "identity_cipher_world =
     empty_world\<lparr>cipher_envs := [0 \<mapsto> \<lparr>ctype = CRYPTO_CIPHER_IDENTITY, ckey = None, civ = None, caux = Some 1\<rparr>],
                 ctxs := [1 \<mapsto> CtxInit],
                 brk := 2\<rparr>"

definition keyless_des_world :: world where
  "keyless_des_world =
     empty_world\<lparr>cipher_envs := [0 \<mapsto> \<lparr>ctype = CRYPTO_CIPHER_DES, ckey = None, civ = None, caux = Some 1\<rparr>],
                 ctxs := [1 \<mapsto> CtxInit],
                 brk := 2\<rparr>"

definition contextless_des_world :: world where
  "contextless_des_world =
     empty_world\<lparr>cipher_envs := [0 \<mapsto> \<lparr>ctype = CRYPTO_CIPHER_DES, ckey = None, civ = None, caux = None\<rparr>],
                 brk := 1\<rparr>"

text \<open>
  Providers of random bytes.  The first two behave as OpenSSL's generator does: a
  count that is not positive is answered with success and nothing is written;
  otherwise the bytes are written if the block is large enough.  They differ in the
  status of a failure (0 for \<open>RAND_bytes\<close>, -1 for \<open>RAND_pseudo_bytes\<close>).  The
  third always fails.  \<open>rand_world\<close> holds one block of four unwritten bytes.
\<close>

definition example_rand_bytes :: "world \<Rightarrow> addr \<Rightarrow> int \<Rightarrow> int \<times> world" where
  "example_rand_bytes w p c =
     (if c \<le> 0 then (1, w)
      else case bufs w p of
             None \<Rightarrow> (0, w)
           | Some b \<Rightarrow>
               if nat c \<le> length b
               then (1, w\<lparr>bufs := (bufs w)(p \<mapsto> replicate (nat c) (Some 42) @ drop (nat c) b)\<rparr>)
               else (0, w))"

definition example_rand_pseudo_bytes :: "world \<Rightarrow> addr \<Rightarrow> int \<Rightarrow> int \<times> world" where
  "example_rand_pseudo_bytes w p c =
     (if c \<le> 0 then (1, w)
      else case bufs w p of
             None \<Rightarrow> (- 1, w)
           | Some b \<Rightarrow>
               if nat c \<le> length b
               then (0, w\<lparr>bufs := (bufs w)(p \<mapsto> replicate (nat c) (Some 42) @ drop (nat c) b)\<rparr>)
               else (- 1, w))"

definition failing_rand :: "int \<Rightarrow> world \<Rightarrow> addr \<Rightarrow> int \<Rightarrow> int \<times> world" where
  "failing_rand status w p c = (status, w)"

definition rand_world :: world where
  "rand_world = empty_world\<lparr>bufs := [0 \<mapsto> replicate 4 None], brk := 1\<rparr>"

text \<open>
  A small environment for loading keys from files: the legal filename characters,
  three files, a parser that accepts two of them, and a check that rejects one key.
\<close>

definition legal_example :: string where
  "legal_example = ''abcdefghijklmnopqrstuvwxyz./''"

definition weak_key_example :: RSA where
  "weak_key_example = \<lparr>rsa_n = Some 3233, rsa_e = Some 17, rsa_p = Some 60\<rparr>"

definition fs_example :: "string \<Rightarrow> string option" where
  "fs_example = [''keys/good'' \<mapsto> ''PEM good'', ''keys/weak'' \<mapsto> ''PEM weak'', ''keys/junk'' \<mapsto> ''junk'']"

definition pem_example :: "string \<Rightarrow> RSA option" where
  "pem_example = [''PEM good'' \<mapsto> private_key_example, ''PEM weak'' \<mapsto> weak_key_example]"

definition check_example :: "RSA \<Rightarrow> int" where
  "check_example r = (if rsa_n r = Some 3233 \<and> rsa_p r = Some 61 then 1 else 0)"

definition load_example :: "string \<Rightarrow> fault + (int \<times> event list)" where
  "load_example path =
     map_sum id (\<lambda>(r, w). (r, trace w))
       (crypto_pk_read_private_key_from_filename legal_example fs_example pem_example check_example
          (Some 0) (Some path) keyed_pk_world)"

section \<open>Properties\<close>

subsection \<open>Reference counting of key handles\<close>

lemma sint_refs_succ:
  fixes x :: "32 word"
  assumes "sint x < 2147483647"
  shows "sint (x + 1) = sint x + 1"
proof -
  have "- (2 ^ 31) \<le> sint x" using sint_ge [of x] by simp
  with assms show ?thesis
    by (simp add: sint_word_ariths signed_take_bit_int_eq_self)
qed

lemma sint_refs_pred:
  fixes x :: "32 word"
  assumes "1 \<le> sint x"
  shows "sint (x - 1) = sint x - 1"
proof -
  have "sint x < 2 ^ 31" using sint_lt [of x] by simp
  with assms show ?thesis
    by (simp add: sint_word_ariths signed_take_bit_int_eq_self)
qed

lemma pk_dup_aliases:
  "pk_envs w a = Some e \<Longrightarrow> pk_type e = CRYPTO_PK_RSA \<Longrightarrow>
   crypto_pk_dup_key (Some a) w =
     (if key e = None then Inl AssertFailed
      else Inr (Some a, w\<lparr>pk_envs := (pk_envs w)(a \<mapsto> e\<lparr>refs := refs e + 1\<rparr>)\<rparr>))"
  by (simp add: crypto_pk_dup_key_def)

lemma pk_free_keeps:
  "pk_envs w a = Some e \<Longrightarrow> 0 < sint (refs e - 1) \<Longrightarrow>
   crypto_free_pk_env (Some a) w = Inr (w\<lparr>pk_envs := (pk_envs w)(a \<mapsto> e\<lparr>refs := refs e - 1\<rparr>)\<rparr>)"
  by (simp add: crypto_free_pk_env_def Let_def)

lemma pk_free_releases:
  assumes "pk_envs w a = Some e" and "\<not> 0 < sint (refs e - 1)" and "pk_type e = CRYPTO_PK_RSA"
    and "\<forall>k. key e = Some k \<longrightarrow> rsas w k \<noteq> None"
  shows "crypto_free_pk_env (Some a) w =
     Inr (w\<lparr>pk_envs := (pk_envs w)(a := None),
            rsas := (case key e of None \<Rightarrow> rsas w | Some k \<Rightarrow> (rsas w)(k := None)),
            trace := trace w @ rsa_free_events (key e) @ [Free a]\<rparr>)"
proof (cases "key e")
  case None
  with assms(1,2,3) show ?thesis
    by (simp add: crypto_free_pk_env_def Let_def then_do_def rsa_free_events_def)
next
  case (Some k)
  with assms(4) obtain r where "rsas w k = Some r" by auto
  with Some assms(1,2,3) show ?thesis
    by (simp add: crypto_free_pk_env_def Let_def RSA_free_def then_do_def rsa_free_events_def)
qed

lemma pk_new_result:
  "fst (crypto_new_pk_env m_ok r_ok t w0) =
     (if m_ok \<and> r_ok \<and> t = CRYPTO_PK_RSA then Some (brk w0) else None)"
  by (cases t) (simp_all add: crypto_new_pk_env_def RSA_new_def Let_def)

lemma pk_new_world:
  "snd (crypto_new_pk_env True True CRYPTO_PK_RSA w0) =
     w0\<lparr>pk_envs := (pk_envs w0)(brk w0 \<mapsto> \<lparr>pk_type = CRYPTO_PK_RSA, refs = 1, key = Some (brk w0 + 1), aux = None\<rparr>),
        rsas := (rsas w0)(brk w0 + 1 \<mapsto> \<lparr>rsa_n = None, rsa_e = None, rsa_p = None\<rparr>),
        brk := brk w0 + 2\<rparr>"
  by (simp add: crypto_new_pk_env_def RSA_new_def Let_def)

lemma pk_dup_then_free:
  assumes "pk_envs w a = Some e" "pk_type e = CRYPTO_PK_RSA" "key e \<noteq> None"
    "1 \<le> sint (refs e)" "sint (refs e) < 2147483647"
  shows "then_do (crypto_pk_dup_key (Some a) w) (\<lambda>(h, w1). crypto_free_pk_env h w1) = Inr w"
proof -
  let ?e1 = "e\<lparr>refs := refs e + 1\<rparr>"
  let ?w1 = "w\<lparr>pk_envs := (pk_envs w)(a \<mapsto> ?e1)\<rparr>"
  have restore: "refs ?e1 - 1 = refs e" by simp
  have "crypto_free_pk_env (Some a) ?w1 =
      Inr (?w1\<lparr>pk_envs := (pk_envs ?w1)(a \<mapsto> ?e1\<lparr>refs := refs ?e1 - 1\<rparr>)\<rparr>)"
    using assms(4) by (intro pk_free_keeps) (simp_all add: restore)
  also have "\<dots> = Inr w"
    using assms(1) by (simp add: map_upd_triv)
  finally show ?thesis
    using assms by (simp add: pk_dup_aliases then_do_def)
qed

lemma fresh_pk_world_simps:
  "pk_envs fresh_pk_world 0 = Some \<lparr>pk_type = CRYPTO_PK_RSA, refs = 1, key = Some 1, aux = None\<rparr>"
  "rsas fresh_pk_world 1 = Some \<lparr>rsa_n = None, rsa_e = None, rsa_p = None\<rparr>"
  "rsas fresh_pk_world (Suc 0) = Some \<lparr>rsa_n = None, rsa_e = None, rsa_p = None\<rparr>"
  "trace fresh_pk_world = []"
  by (simp_all add: fresh_pk_world_def empty_world_def crypto_new_pk_env_def RSA_new_def Let_def)

text \<open>
  C1, as stated, fails for two handles the code can hold.  After a failed
  \<open>crypto_pk_generate_key\<close> the key slot of a fresh handle is empty, and
  \<open>crypto_pk_dup_key\<close> stops in its assertion instead of incrementing.  With the
  count at the largest \<open>int\<close>, \<open>crypto_pk_dup_key\<close> leaves a negative count.
\<close>

theorem pk_env_refcount_counterexample:
  "crypto_pk_generate_key None (Some 0) fresh_pk_world = Inr (- 1, emptied_fresh_world)
   \<and> crypto_pk_dup_key (Some 0) emptied_fresh_world = Inl AssertFailed
   \<and> crypto_pk_dup_key (Some 0) saturated_pk_world =
       Inr (Some 0, saturated_pk_world\<lparr>pk_envs := (pk_envs saturated_pk_world)
              (0 \<mapsto> \<lparr>pk_type = CRYPTO_PK_RSA, refs = 2147483648, key = Some 1, aux = None\<rparr>)\<rparr>)
   \<and> sint (2147483648 :: 32 word) = - 2147483648"
  by (simp add: crypto_pk_generate_key_def crypto_pk_dup_key_def emptied_fresh_world_def
      saturated_pk_world_def fresh_pk_world_simps RSA_free_def store_rsa_def then_do_def Let_def)

text \<open>
  C1, amended.  A key handle is created with reference count 1 (\<open>crypto_new_pk_env\<close>
  returns a handle exactly when both allocations succeed for the RSA kind).  On an
  RSA handle whose count is at least 1 and below the largest \<open>int\<close>:
  \<open>crypto_pk_dup_key\<close> stops in its assertion when the key slot is empty, and
  otherwise adds one to the count and returns the very same address;
  \<open>crypto_free_pk_env\<close> takes one off the count and releases the RSA object (if the
  slot holds one) and then the handle exactly when the count was 1, leaving both in
  place otherwise.  On a handle with key material, duplicating and then destroying
  gives back the store unchanged, so the key is intact; on a freshly created handle
  the next destroy releases the key once.
\<close>

theorem pk_env_refcount_lifecycle:
  assumes "pk_envs w a = Some e" and "pk_type e = CRYPTO_PK_RSA"
    and "\<forall>k. key e = Some k \<longrightarrow> rsas w k \<noteq> None"
    and "1 \<le> sint (refs e)" and "sint (refs e) < 2147483647"
  shows
    "fst (crypto_new_pk_env m_ok r_ok t w0) =
       (if m_ok \<and> r_ok \<and> t = CRYPTO_PK_RSA then Some (brk w0) else None)
     \<and> map_option refs (pk_envs (snd (crypto_new_pk_env True True CRYPTO_PK_RSA w0)) (brk w0)) = Some 1
     \<and> crypto_pk_dup_key (Some a) w =
         (if key e = None then Inl AssertFailed
          else Inr (Some a, w\<lparr>pk_envs := (pk_envs w)(a \<mapsto> e\<lparr>refs := refs e + 1\<rparr>)\<rparr>))
     \<and> sint (refs e + 1) = sint (refs e) + 1
     \<and> crypto_free_pk_env (Some a) w =
         Inr (if 1 < sint (refs e)
              then w\<lparr>pk_envs := (pk_envs w)(a \<mapsto> e\<lparr>refs := refs e - 1\<rparr>)\<rparr>
              else w\<lparr>pk_envs := (pk_envs w)(a := None),
                     rsas := (case key e of None \<Rightarrow> rsas w | Some k \<Rightarrow> (rsas w)(k := None)),
                     trace := trace w @ rsa_free_events (key e) @ [Free a]\<rparr>)
     \<and> sint (refs e - 1) = sint (refs e) - 1
     \<and> then_do (crypto_pk_dup_key (Some a) w) (\<lambda>(h, w1). crypto_free_pk_env h w1) =
         (if key e = None then Inl AssertFailed else Inr w)
     \<and> (case crypto_new_pk_env True True CRYPTO_PK_RSA w0 of
          (h, w1) \<Rightarrow>
            then_do (crypto_pk_dup_key h w1) (\<lambda>(h', w2). crypto_free_pk_env h' w2) = Inr w1
            \<and> crypto_free_pk_env h w1 =
                Inr (w1\<lparr>pk_envs := (pk_envs w1)(brk w0 := None),
                        rsas := (rsas w1)(brk w0 + 1 := None),
                        trace := trace w0 @ [RSA_freed (brk w0 + 1), Free (brk w0)]\<rparr>))"
proof -
  let ?c = "crypto_new_pk_env True True CRYPTO_PK_RSA w0"
  let ?e0 = "\<lparr>pk_type = CRYPTO_PK_RSA, refs = 1, key = Some (brk w0 + 1), aux = None\<rparr>"
  have h: "fst ?c = Some (brk w0)" by (simp add: pk_new_result)
  have e0: "pk_envs (snd ?c) (brk w0) = Some ?e0" by (simp add: pk_new_world)
  have k0: "rsas (snd ?c) (brk w0 + 1) = Some \<lparr>rsa_n = None, rsa_e = None, rsa_p = None\<rparr>"
    by (simp add: pk_new_world)
  have t0: "trace (snd ?c) = trace w0" by (simp add: pk_new_world)
  have s1: "then_do (crypto_pk_dup_key (Some (brk w0)) (snd ?c)) (\<lambda>(h', w2). crypto_free_pk_env h' w2) = Inr (snd ?c)"
    by (rule pk_dup_then_free [OF e0]) simp_all
  have s2: "crypto_free_pk_env (Some (brk w0)) (snd ?c) =
      Inr ((snd ?c)\<lparr>pk_envs := (pk_envs (snd ?c))(brk w0 := None),
                    rsas := (rsas (snd ?c))(brk w0 + 1 := None),
                    trace := trace w0 @ [RSA_freed (brk w0 + 1), Free (brk w0)]\<rparr>)"
    using pk_free_releases [OF e0] k0 by (simp add: t0 rsa_free_events_def)
  have scen: "case ?c of (h, w1) \<Rightarrow>
            then_do (crypto_pk_dup_key h w1) (\<lambda>(h', w2). crypto_free_pk_env h' w2) = Inr w1
            \<and> crypto_free_pk_env h w1 =
                Inr (w1\<lparr>pk_envs := (pk_envs w1)(brk w0 := None),
                        rsas := (rsas w1)(brk w0 + 1 := None),
                        trace := trace w0 @ [RSA_freed (brk w0 + 1), Free (brk w0)]\<rparr>)"
    using s1 s2 h by (simp add: case_prod_beta)
  have up: "sint (refs e + 1) = sint (refs e) + 1"
    using assms(5) by (rule sint_refs_succ)
  have down: "sint (refs e - 1) = sint (refs e) - 1"
    using assms(4) by (rule sint_refs_pred)
  have fr: "crypto_free_pk_env (Some a) w =
         Inr (if 1 < sint (refs e)
              then w\<lparr>pk_envs := (pk_envs w)(a \<mapsto> e\<lparr>refs := refs e - 1\<rparr>)\<rparr>
              else w\<lparr>pk_envs := (pk_envs w)(a := None),
                     rsas := (case key e of None \<Rightarrow> rsas w | Some k \<Rightarrow> (rsas w)(k := None)),
                     trace := trace w @ rsa_free_events (key e) @ [Free a]\<rparr>)"
  proof (cases "1 < sint (refs e)")
    case True
    then have "0 < sint (refs e - 1)" using down by simp
    with True assms(1) show ?thesis by (simp add: pk_free_keeps)
  next
    case False
    then have "\<not> 0 < sint (refs e - 1)" using down by simp
    with False assms(1,2,3) show ?thesis by (simp add: pk_free_releases)
  qed
  have dt: "then_do (crypto_pk_dup_key (Some a) w) (\<lambda>(h, w1). crypto_free_pk_env h w1) =
         (if key e = None then Inl AssertFailed else Inr w)"
  proof (cases "key e = None")
    case True
    with assms(1,2) show ?thesis by (simp add: pk_dup_aliases then_do_def)
  next
    case False
    with pk_dup_then_free [OF assms(1,2) False assms(4,5)] show ?thesis by simp
  qed
  show ?thesis
    using assms(1,2) scen fr dt e0 up down by (simp add: pk_new_result pk_dup_aliases)
qed

theorem pk_env_refcount_lifecycle_witness:
  "pk_envs fresh_pk_world 0 = Some \<lparr>pk_type = CRYPTO_PK_RSA, refs = 1, key = Some 1, aux = None\<rparr>
   \<and> rsas fresh_pk_world 1 = Some \<lparr>rsa_n = None, rsa_e = None, rsa_p = None\<rparr>
   \<and> crypto_pk_dup_key (Some 0) fresh_pk_world =
       Inr (Some 0, fresh_pk_world\<lparr>pk_envs := (pk_envs fresh_pk_world)
              (0 \<mapsto> \<lparr>pk_type = CRYPTO_PK_RSA, refs = 2, key = Some 1, aux = None\<rparr>)\<rparr>)
   \<and> crypto_free_pk_env (Some 0) fresh_pk_world =
       Inr (fresh_pk_world\<lparr>pk_envs := (pk_envs fresh_pk_world)(0 := None),
              rsas := (rsas fresh_pk_world)(1 := None), trace := [RSA_freed 1, Free 0]\<rparr>)
   \<and> pk_envs emptied_fresh_world 0 = Some \<lparr>pk_type = CRYPTO_PK_RSA, refs = 1, key = None, aux = None\<rparr>
   \<and> crypto_pk_dup_key (Some 0) emptied_fresh_world = Inl AssertFailed
   \<and> crypto_free_pk_env (Some 0) emptied_fresh_world =
       Inr (emptied_fresh_world\<lparr>pk_envs := (pk_envs emptied_fresh_world)(0 := None),
              trace := [RSA_freed 1, Free 0]\<rparr>)"
proof -
  let ?e = "\<lparr>pk_type = CRYPTO_PK_RSA, refs = 1, key = Some 1, aux = None\<rparr>"
  let ?n = "\<lparr>pk_type = CRYPTO_PK_RSA, refs = 1, key = None, aux = None\<rparr>"
  have h1: "pk_envs fresh_pk_world 0 = Some ?e" by (rule fresh_pk_world_simps)
  have h2: "pk_type ?e = CRYPTO_PK_RSA" by simp
  have h3: "\<forall>k. key ?e = Some k \<longrightarrow> rsas fresh_pk_world k \<noteq> None"
    by (simp add: fresh_pk_world_simps)
  have h4: "1 \<le> sint (refs ?e)" by simp
  have h5: "sint (refs ?e) < 2147483647" by simp
  have n1: "pk_envs emptied_fresh_world 0 = Some ?n" by (simp add: emptied_fresh_world_def)
  have n2: "pk_type ?n = CRYPTO_PK_RSA" by simp
  have n3: "\<forall>k. key ?n = Some k \<longrightarrow> rsas emptied_fresh_world k \<noteq> None" by simp
  have n4: "1 \<le> sint (refs ?n)" by simp
  have n5: "sint (refs ?n) < 2147483647" by simp
  have nt: "trace emptied_fresh_world = [RSA_freed 1]" by (simp add: emptied_fresh_world_def)
  have r4: "rsas fresh_pk_world 1 = Some \<lparr>rsa_n = None, rsa_e = None, rsa_p = None\<rparr>"
    by (rule fresh_pk_world_simps)
  from pk_env_refcount_lifecycle [OF h1 h2 h3 h4 h5, of True True CRYPTO_PK_RSA empty_world]
    pk_env_refcount_lifecycle [OF n1 n2 n3 n4 n5, of True True CRYPTO_PK_RSA empty_world]
  show ?thesis using h1 r4 n1 nt
    by (simp add: fresh_pk_world_simps rsa_free_events_def)
qed

subsection \<open>Comparing keys\<close>

text \<open>
  C2, as stated, fails: two handles fresh from \<open>crypto_new_pk_env\<close> both have key
  material (an RSA object without components) and the same kind, and
  \<open>crypto_pk_cmp_keys\<close> stops in its assertion instead of comparing.
\<close>

theorem pk_cmp_keys_counterexample:
  "map_option key (pk_envs two_fresh_pk_world 0) = Some (Some 1)
   \<and> map_option key (pk_envs two_fresh_pk_world 2) = Some (Some 3)
   \<and> map_option pk_type (pk_envs two_fresh_pk_world 0) = map_option pk_type (pk_envs two_fresh_pk_world 2)
   \<and> crypto_pk_cmp_keys (Some 0) (Some 2) two_fresh_pk_world = Inl AssertFailed"
  by (simp add: two_fresh_pk_world_def fresh_pk_world_def empty_world_def crypto_new_pk_env_def
      RSA_new_def Let_def crypto_pk_cmp_keys_def)

text \<open>
  C2, amended.  For two live handles \<open>crypto_pk_cmp_keys\<close> returns -1 (the value that
  also means "less") when a key slot is empty, when the kinds differ and when the kind
  is not RSA.  Otherwise, if both RSA objects hold a modulus and a public exponent,
  the result is the lexicographic comparison of (modulus, exponent), nothing else
  being read; if one of the four is absent the assertion fails.
\<close>

theorem pk_cmp_keys_amended:
  assumes "pk_envs w a = Some ea" and "pk_envs w b = Some eb"
  shows "crypto_pk_cmp_keys (Some a) (Some b) w =
     (if key ea = None \<or> key eb = None \<or> pk_type ea \<noteq> pk_type eb \<or> pk_type ea \<noteq> CRYPTO_PK_RSA
      then Inr (- 1)
      else
        (case (rsas w (the (key ea)), rsas w (the (key eb))) of
           (Some ra, Some rb) \<Rightarrow>
             (case (rsa_n ra, rsa_e ra, rsa_n rb, rsa_e rb) of
                (Some na, Some xa, Some nb, Some xb) \<Rightarrow>
                  Inr (if na < nb \<or> (na = nb \<and> xa < xb) then - 1
                       else if na = nb \<and> xa = xb then 0 else 1)
              | _ \<Rightarrow> Inl AssertFailed)
         | _ \<Rightarrow> Inl InvalidAccess))"
  using assms
  by (auto simp add: crypto_pk_cmp_keys_def BN_cmp_def Let_def split: option.splits pk_kind.splits)

theorem pk_cmp_keys_amended_witness:
  "pk_envs keyed_pk_world 0 = Some \<lparr>pk_type = CRYPTO_PK_RSA, refs = 1, key = Some 1, aux = None\<rparr>
   \<and> pk_envs keyed_pk_world 2 = Some \<lparr>pk_type = CRYPTO_PK_RSA, refs = 1, key = Some 3, aux = None\<rparr>
   \<and> crypto_pk_cmp_keys (Some 0) (Some 2) keyed_pk_world = Inr 1
   \<and> crypto_pk_cmp_keys (Some 2) (Some 0) keyed_pk_world = Inr (- 1)
   \<and> crypto_pk_cmp_keys (Some 2) (Some 2) keyed_pk_world = Inr 0
   \<and> pk_envs emptied_pk_world 0 = Some \<lparr>pk_type = CRYPTO_PK_RSA, refs = 1, key = None, aux = None\<rparr>
   \<and> crypto_pk_cmp_keys (Some 0) (Some 2) emptied_pk_world = Inr (- 1)"
proof -
  let ?ea = "\<lparr>pk_type = CRYPTO_PK_RSA, refs = 1, key = Some 1, aux = None\<rparr>"
  let ?eb = "\<lparr>pk_type = CRYPTO_PK_RSA, refs = 1, key = Some 3, aux = None\<rparr>"
  let ?en = "\<lparr>pk_type = CRYPTO_PK_RSA, refs = 1, key = None, aux = None\<rparr>"
  have a: "pk_envs keyed_pk_world 0 = Some ?ea"
    by (simp add: keyed_pk_world_def empty_world_def)
  have b: "pk_envs keyed_pk_world 2 = Some ?eb"
    by (simp add: keyed_pk_world_def empty_world_def)
  have ka: "rsas keyed_pk_world 1 = Some private_key_example"
    and kb: "rsas keyed_pk_world 3 = Some public_key_example"
    by (simp_all add: keyed_pk_world_def empty_world_def)
  have n: "pk_envs emptied_pk_world 0 = Some ?en"
    by (simp add: emptied_pk_world_def)
  have nb: "pk_envs emptied_pk_world 2 = Some ?eb"
    by (simp add: emptied_pk_world_def keyed_pk_world_def empty_world_def)
  from pk_cmp_keys_amended [OF a b] pk_cmp_keys_amended [OF b a] pk_cmp_keys_amended [OF b b]
    pk_cmp_keys_amended [OF n nb]
  show ?thesis using a b ka kb n
    by (simp add: private_key_example_def public_key_example_def)
qed

subsection \<open>Decrypting with a public-only key\<close>

lemma keyed_pk_world_simps:
  "pk_envs keyed_pk_world 0 = Some \<lparr>pk_type = CRYPTO_PK_RSA, refs = 1, key = Some 1, aux = None\<rparr>"
  "pk_envs keyed_pk_world 2 = Some \<lparr>pk_type = CRYPTO_PK_RSA, refs = 1, key = Some 3, aux = None\<rparr>"
  "rsas keyed_pk_world 1 = Some private_key_example"
  "rsas keyed_pk_world (Suc 0) = Some private_key_example"
  "rsas keyed_pk_world 3 = Some public_key_example"
  "trace keyed_pk_world = []"
  by (simp_all add: keyed_pk_world_def empty_world_def)

text \<open>
  C5. When the key loaded in a handle has no private component (its \<open>p\<close> is unset),
  \<open>crypto_pk_private_decrypt\<close> returns -1 and leaves the store as it was: no
  \<open>RSA_decrypted\<close> event is recorded, so OpenSSL's decryption was not called, and the
  result does not depend on what that primitive would return.
\<close>

theorem pk_private_decrypt_public_only:
  assumes "pk_envs w a = Some e" and "key e = Some k" and "rsas w k = Some r" and "rsa_p r = None"
  shows "crypto_pk_private_decrypt dec (Some a) (Some input) fromlen (Some out) padding w = Inr (- 1, w)"
  using assms by (simp add: crypto_pk_private_decrypt_def split: pk_kind.splits)

theorem pk_private_decrypt_public_only_witness:
  "pk_envs keyed_pk_world 2 = Some \<lparr>pk_type = CRYPTO_PK_RSA, refs = 1, key = Some 3, aux = None\<rparr>
   \<and> rsas keyed_pk_world 3 = Some public_key_example
   \<and> rsa_p public_key_example = None
   \<and> crypto_pk_private_decrypt (\<lambda>r i l p. 128) (Some 2) (Some [1, 2, 3]) 3 (Some 9) 1 keyed_pk_world
       = Inr (- 1, keyed_pk_world)
   \<and> crypto_pk_private_decrypt (\<lambda>r i l p. 128) (Some 0) (Some [1, 2, 3]) 3 (Some 9) 1 keyed_pk_world
       = Inr (128, keyed_pk_world\<lparr>trace := [RSA_decrypted 1]\<rparr>)"
proof -
  let ?e = "\<lparr>pk_type = CRYPTO_PK_RSA, refs = 1, key = Some 3, aux = None\<rparr>"
  have h1: "pk_envs keyed_pk_world 2 = Some ?e" by (rule keyed_pk_world_simps)
  have h2: "key ?e = Some 3" by simp
  have h3: "rsas keyed_pk_world 3 = Some public_key_example" by (rule keyed_pk_world_simps)
  have h4: "rsa_p public_key_example = None" by (simp add: public_key_example_def)
  have other: "crypto_pk_private_decrypt (\<lambda>r i l p. 128) (Some 0) (Some [1, 2, 3]) 3 (Some 9) 1 keyed_pk_world
       = Inr (128, keyed_pk_world\<lparr>trace := [RSA_decrypted 1]\<rparr>)"
    by (simp add: crypto_pk_private_decrypt_def keyed_pk_world_simps private_key_example_def)
  from pk_private_decrypt_public_only [OF h1 h2 h3 h4, of "\<lambda>r i l p. 128" "[1, 2, 3]" 3 9 1]
  show ?thesis using h1 h3 h4 other by simp
qed

subsection \<open>Random bytes\<close>

lemma uint_count_bound:
  fixes n :: "32 word"
  assumes "unat n < 2 ^ 31"
  shows "uint n < 2 ^ 31"
proof -
  have "int (unat n) < int (2 ^ 31)" using assms by (rule iffD2 [OF of_nat_less_iff])
  then have "uint n < int (2 ^ 31)" by (simp only: uint_nat)
  then show ?thesis by simp
qed

lemma sint_count:
  fixes n :: "32 word"
  assumes "unat n < 2 ^ 31"
  shows "sint n = int (unat n)"
proof -
  have hi: "uint n < 2 ^ 31" using assms by (rule uint_count_bound)
  have lo: "- (2 ^ 31) \<le> uint n"
    by (rule order_trans [OF _ uint_ge_0]) simp
  have "signed_take_bit 31 (uint n) = uint n"
    using lo hi by (simp add: signed_take_bit_int_eq_self)
  moreover have "sint n = signed_take_bit 31 (uint n)"
    using sint_uint [of n] by simp
  ultimately have "sint n = uint n" by simp
  then show ?thesis by (simp only: uint_nat)
qed

lemma example_rand_bytes_delivers:
  "\<forall>w p c. 0 \<le> c \<longrightarrow> fst (example_rand_bytes w p c) = 1
     \<longrightarrow> written (snd (example_rand_bytes w p c)) p (nat c)"
  by (auto simp add: example_rand_bytes_def written_def list_all_iff split: option.splits)

lemma example_rand_pseudo_bytes_delivers:
  "\<forall>w p c. 0 \<le> c \<longrightarrow> fst (example_rand_pseudo_bytes w p c) \<noteq> - 1
     \<longrightarrow> written (snd (example_rand_pseudo_bytes w p c)) p (nat c)"
  by (auto simp add: example_rand_pseudo_bytes_def written_def list_all_iff split: option.splits)

text \<open>
  C8, as stated, fails for a count above the largest \<open>int\<close>: the \<open>unsigned int\<close>
  reaches the provider as a negative \<open>int\<close>.  A provider that answers success to a
  count that is not positive makes \<open>crypto_rand\<close> report success for 2147483648
  bytes although not one byte was delivered.
\<close>

theorem random_failure_counterexample:
  "unat (2147483648 :: 32 word) = 2147483648
   \<and> sint (2147483648 :: 32 word) = - 2147483648
   \<and> crypto_rand example_rand_bytes 2147483648 (Some 0) rand_world = Inr (0, rand_world)
   \<and> bufs rand_world 0 = Some [None, None, None, None]
   \<and> \<not> written rand_world 0 (unat (2147483648 :: 32 word))"
proof -
  have u: "unat (2147483648 :: 32 word) = 2147483648" by simp
  have n: "sint (2147483648 :: 32 word) = - 2147483648" by simp
  have b: "bufs rand_world 0 = Some [None, None, None, None]"
    by (simp add: rand_world_def empty_world_def numeral_eq_Suc)
  have r: "crypto_rand example_rand_bytes 2147483648 (Some 0) rand_world = Inr (0, rand_world)"
    by (simp add: crypto_rand_def example_rand_bytes_def n)
  have nw: "\<not> written rand_world 0 (unat (2147483648 :: 32 word))"
    by (simp add: written_def b u)
  from u n b r nw show ?thesis by simp
qed

text \<open>
  C8, amended.  For a count of at most the largest \<open>int\<close>, \<open>crypto_rand\<close> asks the
  provider for exactly that many bytes and reports failure (1) exactly when
  \<open>RAND_bytes\<close> does not answer 1; \<open>crypto_pseudo_rand\<close> does the same and reports
  failure (1) exactly when \<open>RAND_pseudo_bytes\<close> answers -1.  In both the store
  afterwards is the one the provider left, the wrapper writing nothing itself: with
  providers that have written the bytes they were asked for whenever they report no
  failure, a reported success means that the requested bytes are in the buffer.
\<close>

theorem random_failure_reported:
  assumes "unat n < 2 ^ 31"
    and "\<forall>w p c. 0 \<le> c \<longrightarrow> fst (prov w p c) = 1 \<longrightarrow> written (snd (prov w p c)) p (nat c)"
    and "\<forall>w p c. 0 \<le> c \<longrightarrow> fst (prov' w p c) \<noteq> - 1 \<longrightarrow> written (snd (prov' w p c)) p (nat c)"
  shows "crypto_rand prov n (Some p) w =
           Inr (if fst (prov w p (int (unat n))) = 1 then 0 else 1, snd (prov w p (int (unat n))))
       \<and> crypto_pseudo_rand prov' n (Some p) w =
           Inr (if fst (prov' w p (int (unat n))) = - 1 then 1 else 0, snd (prov' w p (int (unat n))))
       \<and> (\<forall>w'. crypto_rand prov n (Some p) w = Inr (0, w') \<longrightarrow> written w' p (unat n))
       \<and> (\<forall>w'. crypto_pseudo_rand prov' n (Some p) w = Inr (0, w') \<longrightarrow> written w' p (unat n))"
proof -
  have cnt: "sint n = int (unat n)" using assms(1) by (rule sint_count)
  have r: "crypto_rand prov n (Some p) w =
           Inr (if fst (prov w p (int (unat n))) = 1 then 0 else 1, snd (prov w p (int (unat n))))"
    by (simp add: crypto_rand_def cnt split: prod.splits)
  have q: "crypto_pseudo_rand prov' n (Some p) w =
           Inr (if fst (prov' w p (int (unat n))) = - 1 then 1 else 0, snd (prov' w p (int (unat n))))"
    by (simp add: crypto_pseudo_rand_def cnt split: prod.splits)
  have rd: "\<forall>w'. crypto_rand prov n (Some p) w = Inr (0, w') \<longrightarrow> written w' p (unat n)"
  proof (intro allI impI)
    fix w'
    assume "crypto_rand prov n (Some p) w = Inr (0, w')"
    with r have ok: "fst (prov w p (int (unat n))) = 1" and w': "w' = snd (prov w p (int (unat n)))"
      by (auto split: if_splits)
    from assms(2) ok have "written (snd (prov w p (int (unat n)))) p (nat (int (unat n)))"
      by (metis of_nat_0_le_iff)
    with w' show "written w' p (unat n)" by simp
  qed
  have qd: "\<forall>w'. crypto_pseudo_rand prov' n (Some p) w = Inr (0, w') \<longrightarrow> written w' p (unat n)"
  proof (intro allI impI)
    fix w'
    assume "crypto_pseudo_rand prov' n (Some p) w = Inr (0, w')"
    with q have ok: "fst (prov' w p (int (unat n))) \<noteq> - 1" and w': "w' = snd (prov' w p (int (unat n)))"
      by (auto split: if_splits)
    from assms(3) ok have "written (snd (prov' w p (int (unat n)))) p (nat (int (unat n)))"
      by (metis of_nat_0_le_iff)
    with w' show "written w' p (unat n)" by simp
  qed
  from r q rd qd show ?thesis by simp
qed

theorem random_failure_reported_witness:
  "unat (3 :: 32 word) < 2 ^ 31
   \<and> crypto_rand example_rand_bytes 3 (Some 0) rand_world =
       Inr (0, rand_world\<lparr>bufs := (bufs rand_world)(0 \<mapsto> [Some 42, Some 42, Some 42, None])\<rparr>)
   \<and> crypto_pseudo_rand example_rand_pseudo_bytes 3 (Some 0) rand_world =
       Inr (0, rand_world\<lparr>bufs := (bufs rand_world)(0 \<mapsto> [Some 42, Some 42, Some 42, None])\<rparr>)
   \<and> written (rand_world\<lparr>bufs := (bufs rand_world)(0 \<mapsto> [Some 42, Some 42, Some 42, None])\<rparr>) 0 3
   \<and> crypto_rand example_rand_bytes 5 (Some 0) rand_world = Inr (1, rand_world)
   \<and> crypto_pseudo_rand example_rand_pseudo_bytes 5 (Some 0) rand_world = Inr (1, rand_world)"
proof -
  have n3: "unat (3 :: 32 word) < 2 ^ 31" by simp
  have n5: "unat (5 :: 32 word) < 2 ^ 31" by simp
  have b: "bufs rand_world 0 = Some [None, None, None, None]"
    by (simp add: rand_world_def empty_world_def numeral_eq_Suc)
  have p3: "example_rand_bytes rand_world 0 3 =
      (1, rand_world\<lparr>bufs := (bufs rand_world)(0 \<mapsto> [Some 42, Some 42, Some 42, None])\<rparr>)"
    by (simp add: example_rand_bytes_def b numeral_eq_Suc)
  have q3: "example_rand_pseudo_bytes rand_world 0 3 =
      (0, rand_world\<lparr>bufs := (bufs rand_world)(0 \<mapsto> [Some 42, Some 42, Some 42, None])\<rparr>)"
    by (simp add: example_rand_pseudo_bytes_def b numeral_eq_Suc)
  have p5: "example_rand_bytes rand_world 0 5 = (0, rand_world)"
    by (simp add: example_rand_bytes_def b)
  have q5: "example_rand_pseudo_bytes rand_world 0 5 = (- 1, rand_world)"
    by (simp add: example_rand_pseudo_bytes_def b)
  from random_failure_reported [OF n3 example_rand_bytes_delivers example_rand_pseudo_bytes_delivers,
      of 0 rand_world]
    random_failure_reported [OF n5 example_rand_bytes_delivers example_rand_pseudo_bytes_delivers,
      of 0 rand_world]
  show ?thesis using n3 by (simp add: p3 q3 p5 q5)
qed

subsection \<open>Replacing a key\<close>

text \<open>
  C9. On an RSA handle that holds a key, a failed \<open>crypto_pk_generate_key\<close> (the
  provider returns NULL) and a failed load from a stream or from a string (the text
  does not parse) each return -1 after the old key was freed, and leave the handle
  with an empty key slot: the old key is gone although no new one was set.
\<close>

theorem pk_replace_key_failure_empties:
  assumes "pk_envs w a = Some e" and "pk_type e = CRYPTO_PK_RSA" and "key e = Some k"
    and "rsas w k = Some r"
    and "pem text = None" and "len \<le> int (length text')" and "pem' (take (nat len) text') = None"
  shows "crypto_pk_generate_key None (Some a) w =
           Inr (- 1, w\<lparr>rsas := (rsas w)(k := None), trace := trace w @ [RSA_freed k],
                       pk_envs := (pk_envs w)(a \<mapsto> e\<lparr>key := None\<rparr>)\<rparr>)
       \<and> crypto_pk_read_private_key_from_file pem (Some a) (Some text) w =
           Inr (- 1, w\<lparr>rsas := (rsas w)(k := None), trace := trace w @ [RSA_freed k],
                       pk_envs := (pk_envs w)(a \<mapsto> e\<lparr>key := None\<rparr>)\<rparr>)
       \<and> crypto_pk_read_public_key_from_file pem (Some a) (Some text) w =
           Inr (- 1, w\<lparr>rsas := (rsas w)(k := None), trace := trace w @ [RSA_freed k],
                       pk_envs := (pk_envs w)(a \<mapsto> e\<lparr>key := None\<rparr>)\<rparr>)
       \<and> crypto_pk_read_public_key_from_string pem' (Some a) (Some text') len w =
           Inr (- 1, w\<lparr>rsas := (rsas w)(k := None), trace := trace w @ [RSA_freed k],
                       pk_envs := (pk_envs w)(a \<mapsto> e\<lparr>key := None\<rparr>)\<rparr>)"
  using assms
  by (simp add: crypto_pk_generate_key_def crypto_pk_read_private_key_from_file_def
      crypto_pk_read_public_key_from_file_def
      crypto_pk_read_public_key_from_string_def RSA_free_def then_do_def store_rsa_def Let_def)

theorem pk_replace_key_failure_empties_witness:
  "pk_envs keyed_pk_world 0 = Some \<lparr>pk_type = CRYPTO_PK_RSA, refs = 1, key = Some 1, aux = None\<rparr>
   \<and> rsas keyed_pk_world 1 = Some private_key_example
   \<and> (3::int) \<le> int (length ''junk'')
   \<and> crypto_pk_generate_key None (Some 0) keyed_pk_world =
       Inr (- 1, keyed_pk_world\<lparr>rsas := (rsas keyed_pk_world)(1 := None), trace := [RSA_freed 1],
              pk_envs := (pk_envs keyed_pk_world)
                (0 \<mapsto> \<lparr>pk_type = CRYPTO_PK_RSA, refs = 1, key = None, aux = None\<rparr>)\<rparr>)
   \<and> crypto_pk_read_private_key_from_file (\<lambda>s. None) (Some 0) (Some ''junk'') keyed_pk_world =
       Inr (- 1, keyed_pk_world\<lparr>rsas := (rsas keyed_pk_world)(1 := None), trace := [RSA_freed 1],
              pk_envs := (pk_envs keyed_pk_world)
                (0 \<mapsto> \<lparr>pk_type = CRYPTO_PK_RSA, refs = 1, key = None, aux = None\<rparr>)\<rparr>)
   \<and> crypto_pk_read_public_key_from_file (\<lambda>s. None) (Some 0) (Some ''junk'') keyed_pk_world =
       Inr (- 1, keyed_pk_world\<lparr>rsas := (rsas keyed_pk_world)(1 := None), trace := [RSA_freed 1],
              pk_envs := (pk_envs keyed_pk_world)
                (0 \<mapsto> \<lparr>pk_type = CRYPTO_PK_RSA, refs = 1, key = None, aux = None\<rparr>)\<rparr>)
   \<and> crypto_pk_read_public_key_from_string (\<lambda>s. None) (Some 0) (Some ''junk'') 3 keyed_pk_world =
       Inr (- 1, keyed_pk_world\<lparr>rsas := (rsas keyed_pk_world)(1 := None), trace := [RSA_freed 1],
              pk_envs := (pk_envs keyed_pk_world)
                (0 \<mapsto> \<lparr>pk_type = CRYPTO_PK_RSA, refs = 1, key = None, aux = None\<rparr>)\<rparr>)"
proof -
  let ?e = "\<lparr>pk_type = CRYPTO_PK_RSA, refs = 1, key = Some 1, aux = None\<rparr>"
  have h1: "pk_envs keyed_pk_world 0 = Some ?e" by (rule keyed_pk_world_simps)
  have h2: "pk_type ?e = CRYPTO_PK_RSA" by simp
  have h3: "key ?e = Some 1" by simp
  have h4: "rsas keyed_pk_world 1 = Some private_key_example" by (rule keyed_pk_world_simps)
  have h5: "(\<lambda>s::string. None :: RSA option) ''junk'' = None" by simp
  have h6: "(3::int) \<le> int (length ''junk'')" by simp
  have h7: "(\<lambda>s::string. None :: RSA option) (take (nat 3) ''junk'') = None" by simp
  from pk_replace_key_failure_empties [OF h1 h2 h3 h4 h5 h6 h7]
  show ?thesis using h1 h4 h6 by (simp add: keyed_pk_world_simps)
qed

subsection \<open>Destroying a cipher handle\<close>

lemma crypto_new_cipher_env_des:
  "crypto_new_cipher_env True True True True CRYPTO_CIPHER_DES empty_world = Inr (Some 0, des_cipher_world)"
  by (simp add: crypto_new_cipher_env_def empty_world_def des_cipher_world_def Let_def then_do_def
      crypto_cipher_iv_length_def crypto_cipher_key_length_def crypto_cipher_evp_cipher_def
      malloc_ctx_def EVP_CIPHER_CTX_init_def set_caux_def set_civ_def set_ckey_def
      new_cipher_env_iv_def new_cipher_env_key_def malloc_buf_def numeral_2_eq_2 numeral_3_eq_3)

lemma des_cipher_world_simps:
  "cipher_envs des_cipher_world 0 =
     Some \<lparr>ctype = CRYPTO_CIPHER_DES, ckey = Some 3, civ = Some 2, caux = Some 1\<rparr>"
  "ctxs des_cipher_world 1 = Some CtxInit"
  "ctxs des_cipher_world (Suc 0) = Some CtxInit"
  "bufs des_cipher_world 2 = Some (replicate 8 None)"
  "bufs des_cipher_world 3 = Some (replicate 8 None)"
  "trace des_cipher_world = []"
  by (simp_all add: des_cipher_world_def empty_world_def)

lemma identity_cipher_world_simps:
  "cipher_envs identity_cipher_world 0 =
     Some \<lparr>ctype = CRYPTO_CIPHER_IDENTITY, ckey = None, civ = None, caux = Some 1\<rparr>"
  "ctxs identity_cipher_world 1 = Some CtxInit"
  "ctxs identity_cipher_world (Suc 0) = Some CtxInit"
  "trace identity_cipher_world = []"
  by (simp_all add: identity_cipher_world_def empty_world_def)

lemma free_opt_buf:
  assumes "\<forall>x. p = Some x \<longrightarrow> bufs w x \<noteq> None"
  shows "\<exists>w'. (case p of Some x \<Rightarrow> free_buf x w | None \<Rightarrow> Inr w) = Inr w'
     \<and> trace w' = trace w @ free_events p
     \<and> bufs w' = (\<lambda>q. if Some q = p then None else bufs w q)
     \<and> cipher_envs w' = cipher_envs w \<and> ctxs w' = ctxs w \<and> pk_envs w' = pk_envs w
     \<and> rsas w' = rsas w \<and> brk w' = brk w"
  using assms by (cases p) (auto simp add: free_buf_def free_events_def fun_eq_iff)

text \<open>
  C3, as stated, fails on the order: for the DES handle that \<open>crypto_new_cipher_env\<close>
  builds (key buffer at 3, IV buffer at 2), \<open>crypto_free_cipher_env\<close> releases the
  context, then the IV buffer, then the key buffer; the key is not released before
  the IV.
\<close>

theorem cipher_free_order_counterexample:
  "cipher_envs des_cipher_world 0 =
     Some \<lparr>ctype = CRYPTO_CIPHER_DES, ckey = Some 3, civ = Some 2, caux = Some 1\<rparr>
   \<and> map_sum id trace (crypto_free_cipher_env (Some 0) des_cipher_world) =
       Inr [CTX_cleaned 1, Free 1, Free 2, Free 3, Free 0]
   \<and> \<not> freed_before 3 2 [CTX_cleaned 1, Free 1, Free 2, Free 3, Free 0]
   \<and> freed_before 2 3 [CTX_cleaned 1, Free 1, Free 2, Free 3, Free 0]"
  by (simp add: des_cipher_world_def empty_world_def crypto_free_cipher_env_def then_do_def
      crypto_cipher_evp_cipher_def EVP_CIPHER_CTX_cleanup_def free_ctx_def free_buf_def
      free_cipher_env_def freed_before_def)

text \<open>
  A handle of a supported tag without a streaming context stops the function in its
  assertion.
\<close>

lemma cipher_free_without_context:
  "crypto_free_cipher_env (Some 0) contextless_des_world = Inl AssertFailed"
  by (simp add: contextless_des_world_def empty_world_def crypto_free_cipher_env_def
      then_do_def crypto_cipher_evp_cipher_def)

text \<open>
  C3, amended.  On a handle of a supported tag whose streaming context is present,
  \<open>crypto_free_cipher_env\<close> succeeds whether or not the IV and key buffers are present:
  it cleans and releases the context first, then the IV buffer, then the key buffer
  (each only if present), then the handle itself.
\<close>

theorem cipher_free_order_amended:
  assumes "cipher_envs w a = Some e"
    and "crypto_cipher_evp_cipher (ctype e) 0 \<noteq> None"
    and "caux e = Some x" and "ctxs w x = Some c"
    and "\<forall>i. civ e = Some i \<longrightarrow> bufs w i \<noteq> None"
    and "\<forall>k. ckey e = Some k \<longrightarrow> bufs w k \<noteq> None"
    and "civ e = None \<or> civ e \<noteq> ckey e"
  shows "\<exists>w'. crypto_free_cipher_env (Some a) w = Inr w'
     \<and> trace w' = trace w @ [CTX_cleaned x, Free x] @ free_events (civ e) @ free_events (ckey e) @ [Free a]
     \<and> cipher_envs w' = (cipher_envs w)(a := None)
     \<and> ctxs w' = (ctxs w)(x := None)
     \<and> bufs w' = (\<lambda>q. if Some q = civ e \<or> Some q = ckey e then None else bufs w q)"
proof -
  let ?w2 = "w\<lparr>ctxs := (ctxs w)(x := None), trace := trace w @ [CTX_cleaned x, Free x]\<rparr>"
  let ?w1 = "w\<lparr>ctxs := (ctxs w)(x \<mapsto> CtxInit), trace := trace w @ [CTX_cleaned x]\<rparr>"
  have s1: "EVP_CIPHER_CTX_cleanup x w = Inr ?w1"
    using assms(4) by (simp add: EVP_CIPHER_CTX_cleanup_def)
  have s2: "free_ctx x ?w1 = Inr ?w2"
    by (simp add: free_ctx_def)
  obtain w3 where w3: "(case civ e of Some i \<Rightarrow> free_buf i ?w2 | None \<Rightarrow> Inr ?w2) = Inr w3"
    "trace w3 = trace ?w2 @ free_events (civ e)"
    "bufs w3 = (\<lambda>q. if Some q = civ e then None else bufs ?w2 q)"
    "cipher_envs w3 = cipher_envs ?w2" "ctxs w3 = ctxs ?w2"
    using free_opt_buf [of "civ e" ?w2] assms(5) by auto
  have "\<forall>k. ckey e = Some k \<longrightarrow> bufs w3 k \<noteq> None"
    using assms(6,7) w3(3) by auto
  then obtain w4 where w4: "(case ckey e of Some k \<Rightarrow> free_buf k w3 | None \<Rightarrow> Inr w3) = Inr w4"
    "trace w4 = trace w3 @ free_events (ckey e)"
    "bufs w4 = (\<lambda>q. if Some q = ckey e then None else bufs w3 q)"
    "cipher_envs w4 = cipher_envs w3" "ctxs w4 = ctxs w3"
    using free_opt_buf [of "ckey e" w3] by auto
  have e4: "cipher_envs w4 a = Some e"
    using assms(1) w3(4) w4(4) by simp
  have run: "crypto_free_cipher_env (Some a) w = free_cipher_env a w4"
    using assms(1,2,3) w3(1) w4(1)
    by (simp add: crypto_free_cipher_env_def then_do_def s1 s2)
  have fin: "free_cipher_env a w4 =
      Inr (w4\<lparr>cipher_envs := (cipher_envs w4)(a := None), trace := trace w4 @ [Free a]\<rparr>)"
    using e4 by (simp add: free_cipher_env_def)
  show ?thesis
    unfolding run fin using w3 w4 by (auto simp add: fun_eq_iff)
qed

theorem cipher_free_order_amended_witness:
  "cipher_envs des_cipher_world 0 =
     Some \<lparr>ctype = CRYPTO_CIPHER_DES, ckey = Some 3, civ = Some 2, caux = Some 1\<rparr>
   \<and> ctxs des_cipher_world 1 = Some CtxInit
   \<and> bufs des_cipher_world 2 \<noteq> None \<and> bufs des_cipher_world 3 \<noteq> None
   \<and> (\<exists>w'. crypto_free_cipher_env (Some 0) des_cipher_world = Inr w'
         \<and> trace w' = [CTX_cleaned 1, Free 1, Free 2, Free 3, Free 0])
   \<and> cipher_envs identity_cipher_world 0 =
       Some \<lparr>ctype = CRYPTO_CIPHER_IDENTITY, ckey = None, civ = None, caux = Some 1\<rparr>
   \<and> (\<exists>w'. crypto_free_cipher_env (Some 0) identity_cipher_world = Inr w'
         \<and> trace w' = [CTX_cleaned 1, Free 1, Free 0])"
proof -
  let ?e = "\<lparr>ctype = CRYPTO_CIPHER_DES, ckey = Some 3, civ = Some 2, caux = Some 1\<rparr>"
  let ?i = "\<lparr>ctype = CRYPTO_CIPHER_IDENTITY, ckey = None, civ = None, caux = Some 1\<rparr>"
  have d1: "cipher_envs des_cipher_world 0 = Some ?e" by (rule des_cipher_world_simps)
  have d2: "crypto_cipher_evp_cipher (ctype ?e) 0 \<noteq> None" by (simp add: crypto_cipher_evp_cipher_def)
  have d3: "caux ?e = Some 1" by simp
  have d4: "ctxs des_cipher_world 1 = Some CtxInit" by (rule des_cipher_world_simps)
  have d5: "\<forall>i. civ ?e = Some i \<longrightarrow> bufs des_cipher_world i \<noteq> None"
    by (simp add: des_cipher_world_simps)
  have d6: "\<forall>k. ckey ?e = Some k \<longrightarrow> bufs des_cipher_world k \<noteq> None"
    by (simp add: des_cipher_world_simps)
  have d7: "civ ?e = None \<or> civ ?e \<noteq> ckey ?e" by simp
  have i1: "cipher_envs identity_cipher_world 0 = Some ?i" by (rule identity_cipher_world_simps)
  have i2: "crypto_cipher_evp_cipher (ctype ?i) 0 \<noteq> None" by (simp add: crypto_cipher_evp_cipher_def)
  have i3: "caux ?i = Some 1" by simp
  have i4: "ctxs identity_cipher_world 1 = Some CtxInit" by (rule identity_cipher_world_simps)
  have i5: "\<forall>i. civ ?i = Some i \<longrightarrow> bufs identity_cipher_world i \<noteq> None" by simp
  have i6: "\<forall>k. ckey ?i = Some k \<longrightarrow> bufs identity_cipher_world k \<noteq> None" by simp
  have i7: "civ ?i = None \<or> civ ?i \<noteq> ckey ?i" by simp
  from cipher_free_order_amended [OF d1 d2 d3 d4 d5 d6 d7]
    cipher_free_order_amended [OF i1 i2 i3 i4 i5 i6 i7]
  show ?thesis using d1 d4 i1
    by (simp add: des_cipher_world_simps identity_cipher_world_simps free_events_def) blast
qed

subsection \<open>Setting key and IV\<close>

text \<open>
  C7. On a handle of a supported tag whose buffers, where present, have the tag's
  lengths, and for inputs that hold at least that many bytes: \<open>crypto_cipher_set_key\<close>
  and \<open>crypto_cipher_set_iv\<close> return 0 and change nothing when the tag's length is 0;
  return -1 and change nothing when the length is not 0 and the handle has no buffer;
  and otherwise return 0 with the buffer holding exactly the first \<open>key_len\<close>
  (\<open>iv_len\<close>) bytes of the input, nothing else in the store being written.
\<close>

theorem cipher_set_key_iv:
  assumes "cipher_envs w a = Some e"
    and "crypto_cipher_key_length (ctype e) = Inr kl"
    and "crypto_cipher_iv_length (ctype e) = Inr il"
    and "\<forall>p. ckey e = Some p \<longrightarrow> (\<exists>b. bufs w p = Some b \<and> int (length b) = kl)"
    and "\<forall>p. civ e = Some p \<longrightarrow> (\<exists>b. bufs w p = Some b \<and> int (length b) = il)"
    and "kl \<le> int (length key_in)" and "il \<le> int (length iv_in)"
  shows "crypto_cipher_set_key (Some a) (Some key_in) w =
           (if kl = 0 then Inr (0, w)
            else case ckey e of
                   None \<Rightarrow> Inr (- 1, w)
                 | Some p \<Rightarrow> Inr (0, w\<lparr>bufs := (bufs w)(p \<mapsto> map Some (take (nat kl) key_in))\<rparr>))
       \<and> crypto_cipher_set_iv (Some a) (Some iv_in) w =
           (if il = 0 then Inr (0, w)
            else case civ e of
                   None \<Rightarrow> Inr (- 1, w)
                 | Some p \<Rightarrow> Inr (0, w\<lparr>bufs := (bufs w)(p \<mapsto> map Some (take (nat il) iv_in))\<rparr>))"
proof -
  have k: "crypto_cipher_set_key (Some a) (Some key_in) w =
           (if kl = 0 then Inr (0, w)
            else case ckey e of
                   None \<Rightarrow> Inr (- 1, w)
                 | Some p \<Rightarrow> Inr (0, w\<lparr>bufs := (bufs w)(p \<mapsto> map Some (take (nat kl) key_in))\<rparr>))"
    using assms(1,2,4,6)
    by (auto simp add: crypto_cipher_set_key_def then_do_def memcpy_def split: option.splits)
  have i: "crypto_cipher_set_iv (Some a) (Some iv_in) w =
           (if il = 0 then Inr (0, w)
            else case civ e of
                   None \<Rightarrow> Inr (- 1, w)
                 | Some p \<Rightarrow> Inr (0, w\<lparr>bufs := (bufs w)(p \<mapsto> map Some (take (nat il) iv_in))\<rparr>))"
    using assms(1,3,5,7)
    by (auto simp add: crypto_cipher_set_iv_def then_do_def memcpy_def split: option.splits)
  from k i show ?thesis by simp
qed

theorem cipher_set_key_iv_witness:
  "cipher_envs des_cipher_world 0 =
     Some \<lparr>ctype = CRYPTO_CIPHER_DES, ckey = Some 3, civ = Some 2, caux = Some 1\<rparr>
   \<and> crypto_cipher_key_length CRYPTO_CIPHER_DES = Inr 8
   \<and> crypto_cipher_iv_length CRYPTO_CIPHER_DES = Inr 8
   \<and> bufs des_cipher_world 3 = Some (replicate 8 None)
   \<and> bufs des_cipher_world 2 = Some (replicate 8 None)
   \<and> crypto_cipher_set_key (Some 0) (Some [1, 2, 3, 4, 5, 6, 7, 8, 9]) des_cipher_world =
       Inr (0, des_cipher_world\<lparr>bufs := (bufs des_cipher_world)
              (3 \<mapsto> [Some 1, Some 2, Some 3, Some 4, Some 5, Some 6, Some 7, Some 8])\<rparr>)
   \<and> crypto_cipher_set_iv (Some 0) (Some [8, 7, 6, 5, 4, 3, 2, 1]) des_cipher_world =
       Inr (0, des_cipher_world\<lparr>bufs := (bufs des_cipher_world)
              (2 \<mapsto> [Some 8, Some 7, Some 6, Some 5, Some 4, Some 3, Some 2, Some 1])\<rparr>)
   \<and> crypto_cipher_set_key (Some 0) (Some []) identity_cipher_world = Inr (0, identity_cipher_world)
   \<and> crypto_cipher_set_iv (Some 0) (Some [1, 2, 3]) identity_cipher_world = Inr (0, identity_cipher_world)
   \<and> crypto_cipher_set_key (Some 0) (Some [1, 2, 3, 4, 5, 6, 7, 8]) keyless_des_world = Inr (- 1, keyless_des_world)
   \<and> crypto_cipher_set_iv (Some 0) (Some [1, 2, 3, 4, 5, 6, 7, 8]) keyless_des_world = Inr (- 1, keyless_des_world)"
proof -
  let ?e = "\<lparr>ctype = CRYPTO_CIPHER_DES, ckey = Some 3, civ = Some 2, caux = Some 1\<rparr>"
  let ?i = "\<lparr>ctype = CRYPTO_CIPHER_IDENTITY, ckey = None, civ = None, caux = Some 1\<rparr>"
  let ?n = "\<lparr>ctype = CRYPTO_CIPHER_DES, ckey = None, civ = None, caux = Some 1\<rparr>"
  have d1: "cipher_envs des_cipher_world 0 = Some ?e" by (rule des_cipher_world_simps)
  have d2: "crypto_cipher_key_length (ctype ?e) = Inr 8" by (simp add: crypto_cipher_key_length_def)
  have d3: "crypto_cipher_iv_length (ctype ?e) = Inr 8" by (simp add: crypto_cipher_iv_length_def)
  have d4: "\<forall>p. ckey ?e = Some p \<longrightarrow> (\<exists>b. bufs des_cipher_world p = Some b \<and> int (length b) = 8)"
    by (simp add: des_cipher_world_simps)
  have d5: "\<forall>p. civ ?e = Some p \<longrightarrow> (\<exists>b. bufs des_cipher_world p = Some b \<and> int (length b) = 8)"
    by (simp add: des_cipher_world_simps)
  have d6: "8 \<le> int (length [1, 2, 3, 4, 5, 6, 7, 8, 9 :: byte])" by simp
  have d7: "8 \<le> int (length [8, 7, 6, 5, 4, 3, 2, 1 :: byte])" by simp
  have i1: "cipher_envs identity_cipher_world 0 = Some ?i" by (rule identity_cipher_world_simps)
  have i2: "crypto_cipher_key_length (ctype ?i) = Inr 0" by (simp add: crypto_cipher_key_length_def)
  have i3: "crypto_cipher_iv_length (ctype ?i) = Inr 0" by (simp add: crypto_cipher_iv_length_def)
  have i4: "\<forall>p. ckey ?i = Some p \<longrightarrow> (\<exists>b. bufs identity_cipher_world p = Some b \<and> int (length b) = 0)"
    by simp
  have i5: "\<forall>p. civ ?i = Some p \<longrightarrow> (\<exists>b. bufs identity_cipher_world p = Some b \<and> int (length b) = 0)"
    by simp
  have i6: "0 \<le> int (length ([] :: byte list))" by simp
  have i7: "0 \<le> int (length [1, 2, 3 :: byte])" by simp
  have n1: "cipher_envs keyless_des_world 0 = Some ?n"
    by (simp add: keyless_des_world_def empty_world_def)
  have n2: "crypto_cipher_key_length (ctype ?n) = Inr 8" by (simp add: crypto_cipher_key_length_def)
  have n3: "crypto_cipher_iv_length (ctype ?n) = Inr 8" by (simp add: crypto_cipher_iv_length_def)
  have n4: "\<forall>p. ckey ?n = Some p \<longrightarrow> (\<exists>b. bufs keyless_des_world p = Some b \<and> int (length b) = 8)"
    by simp
  have n5: "\<forall>p. civ ?n = Some p \<longrightarrow> (\<exists>b. bufs keyless_des_world p = Some b \<and> int (length b) = 8)"
    by simp
  have n6: "8 \<le> int (length [1, 2, 3, 4, 5, 6, 7, 8 :: byte])" by simp
  from cipher_set_key_iv [OF d1 d2 d3 d4 d5 d6 d7]
    cipher_set_key_iv [OF i1 i2 i3 i4 i5 i6 i7]
    cipher_set_key_iv [OF n1 n2 n3 n4 n5 n6 n6]
  show ?thesis
    using d1 by (simp add: des_cipher_world_simps crypto_cipher_key_length_def crypto_cipher_iv_length_def)
qed

subsection \<open>Loading a private key from a named file\<close>

lemma strspn_whole: "(strspn s accept = length s) = (set s \<subseteq> set accept)"
  unfolding strspn_def
proof (induction s)
  case Nil
  show ?case by simp
next
  case (Cons c cs)
  show ?case
  proof (cases "c \<in> set accept")
    case True
    with Cons show ?thesis by simp
  next
    case False
    then show ?thesis by simp
  qed
qed

text \<open>
  C4. On an RSA handle, \<open>crypto_pk_read_private_key_from_filename\<close> returns 0 exactly
  when every character of the path is legal, the file opens, its contents parse and
  \<open>RSA_check_key\<close> answers 1; in every other case it returns -1.  With an illegal
  character the store is unchanged: \<open>fopen\<close> is not called.  Otherwise the events
  tell the failures apart: only \<open>Fopen\<close> when the open fails; old key freed,
  \<open>Fclose\<close> and the message of the read error when the parse fails; the message of
  the invalid key or of the failed check when \<open>RSA_check_key\<close> answers 0 or -1.
\<close>

theorem pk_read_private_key_from_filename_outcomes:
  assumes "pk_envs w a = Some e" and "pk_type e = CRYPTO_PK_RSA"
    and "\<forall>k. key e = Some k \<longrightarrow> rsas w k \<noteq> None"
  shows "\<exists>w'. crypto_pk_read_private_key_from_filename legal fs pem check (Some a) (Some path) w =
            Inr (if set path \<subseteq> set legal \<and> map_option check (Option.bind (fs path) pem) = Some 1
                 then 0 else - 1, w')
       \<and> (\<not> set path \<subseteq> set legal \<longrightarrow> w' = w)
       \<and> (set path \<subseteq> set legal \<longrightarrow>
            trace w' = trace w @ Fopen path #
              (case fs path of
                 None \<Rightarrow> []
               | Some text \<Rightarrow>
                   rsa_free_events (key e) @ Fclose #
                     (case pem text of
                        None \<Rightarrow> [Log ''Error reading private key'']
                      | Some r \<Rightarrow>
                          if check r = 0 then [Log ''Private key read but is invalid'']
                          else if check r = - 1
                          then [Log ''Private key read but validity checking failed'']
                          else [])))"
proof (cases "set path \<subseteq> set legal")
  case False
  then show ?thesis
    by (simp add: crypto_pk_read_private_key_from_filename_def strspn_whole)
next
  case legal: True
  show ?thesis
  proof (cases "fs path")
    case None
    with legal show ?thesis
      by (simp add: crypto_pk_read_private_key_from_filename_def strspn_whole Let_def)
  next
    case (Some content)
    show ?thesis
    proof (cases "key e")
      case None
      with legal Some assms(1,2) show ?thesis
        by (cases "pem content")
          (simp_all add: crypto_pk_read_private_key_from_filename_def strspn_whole Let_def
            crypto_pk_read_private_key_from_file_def crypto_pk_check_key_def then_do_def
            store_rsa_def log_event_def rsa_free_events_def)
    next
      case (Some k)
      with assms(3) obtain r0 where "rsas w k = Some r0" by auto
      with legal \<open>fs path = Some content\<close> Some assms(1,2) show ?thesis
        by (cases "pem content")
          (simp_all add: crypto_pk_read_private_key_from_filename_def strspn_whole Let_def
            crypto_pk_read_private_key_from_file_def crypto_pk_check_key_def then_do_def
            store_rsa_def log_event_def rsa_free_events_def RSA_free_def)
    qed
  qed
qed


theorem pk_read_private_key_from_filename_outcomes_witness:
  "pk_envs keyed_pk_world 0 = Some \<lparr>pk_type = CRYPTO_PK_RSA, refs = 1, key = Some 1, aux = None\<rparr>
   \<and> rsas keyed_pk_world 1 \<noteq> None
   \<and> load_example ''keys;rm'' = Inr (- 1, [])
   \<and> load_example ''keys/none'' = Inr (- 1, [Fopen ''keys/none''])
   \<and> load_example ''keys/junk'' =
       Inr (- 1, [Fopen ''keys/junk'', RSA_freed 1, Fclose, Log ''Error reading private key''])
   \<and> load_example ''keys/weak'' =
       Inr (- 1, [Fopen ''keys/weak'', RSA_freed 1, Fclose, Log ''Private key read but is invalid''])
   \<and> load_example ''keys/good'' = Inr (0, [Fopen ''keys/good'', RSA_freed 1, Fclose])"
proof -
  let ?e = "\<lparr>pk_type = CRYPTO_PK_RSA, refs = 1, key = Some 1, aux = None\<rparr>"
  have h1: "pk_envs keyed_pk_world 0 = Some ?e" by (rule keyed_pk_world_simps)
  have h2: "pk_type ?e = CRYPTO_PK_RSA" by simp
  have h3: "\<forall>k. key ?e = Some k \<longrightarrow> rsas keyed_pk_world k \<noteq> None"
    by (simp add: keyed_pk_world_simps)
  note outcome = pk_read_private_key_from_filename_outcomes [OF h1 h2 h3,
      of legal_example fs_example pem_example check_example]
  have l1: "\<not> set ''keys;rm'' \<subseteq> set legal_example" by (simp add: legal_example_def)
  have l2: "set ''keys/none'' \<subseteq> set legal_example" by (simp add: legal_example_def)
  have l3: "set ''keys/junk'' \<subseteq> set legal_example" by (simp add: legal_example_def)
  have l4: "set ''keys/weak'' \<subseteq> set legal_example" by (simp add: legal_example_def)
  have l5: "set ''keys/good'' \<subseteq> set legal_example" by (simp add: legal_example_def)
  have f2: "fs_example ''keys/none'' = None" by (simp add: fs_example_def)
  have f3: "fs_example ''keys/junk'' = Some ''junk''" by (simp add: fs_example_def)
  have f4: "fs_example ''keys/weak'' = Some ''PEM weak''" by (simp add: fs_example_def)
  have f5: "fs_example ''keys/good'' = Some ''PEM good''" by (simp add: fs_example_def)
  have p3: "pem_example ''junk'' = None" by (simp add: pem_example_def)
  have p4: "pem_example ''PEM weak'' = Some weak_key_example" by (simp add: pem_example_def)
  have p5: "pem_example ''PEM good'' = Some private_key_example" by (simp add: pem_example_def)
  have c4: "check_example weak_key_example = 0"
    by (simp add: check_example_def weak_key_example_def)
  have c5: "check_example private_key_example = 1"
    by (simp add: check_example_def private_key_example_def)
  have r1: "load_example ''keys;rm'' = Inr (- 1, [])"
    using outcome [of "''keys;rm''"] l1 by (auto simp add: load_example_def keyed_pk_world_simps)
  have r2: "load_example ''keys/none'' = Inr (- 1, [Fopen ''keys/none''])"
    using outcome [of "''keys/none''"] l2 f2 by (auto simp add: load_example_def keyed_pk_world_simps)
  have r3: "load_example ''keys/junk'' =
       Inr (- 1, [Fopen ''keys/junk'', RSA_freed 1, Fclose, Log ''Error reading private key''])"
    using outcome [of "''keys/junk''"] l3 f3 p3
    by (auto simp add: load_example_def keyed_pk_world_simps rsa_free_events_def)
  have r4: "load_example ''keys/weak'' =
       Inr (- 1, [Fopen ''keys/weak'', RSA_freed 1, Fclose, Log ''Private key read but is invalid''])"
    using outcome [of "''keys/weak''"] l4 f4 p4 c4
    by (auto simp add: load_example_def keyed_pk_world_simps rsa_free_events_def)
  have r5: "load_example ''keys/good'' = Inr (0, [Fopen ''keys/good'', RSA_freed 1, Fclose])"
    using outcome [of "''keys/good''"] l5 f5 p5 c5
    by (auto simp add: load_example_def keyed_pk_world_simps rsa_free_events_def)
  from h1 r1 r2 r3 r4 r5 show ?thesis by (simp add: keyed_pk_world_simps)
qed

subsection \<open>Creating a cipher handle\<close>

lemmas new_cipher_defs =
  crypto_new_cipher_env_def Let_def then_do_def
  crypto_cipher_iv_length_def crypto_cipher_key_length_def crypto_cipher_evp_cipher_def
  malloc_ctx_def EVP_CIPHER_CTX_init_def set_caux_def set_civ_def set_ckey_def
  new_cipher_env_iv_def new_cipher_env_key_def malloc_buf_def
  new_cipher_env_err_def free_buf_def free_ctx_def free_cipher_env_def

text \<open>
  C6. \<open>crypto_cipher_key_length\<close> and \<open>crypto_cipher_iv_length\<close> are functions of the
  tag alone (they neither read nor change the store).  For every supported tag both
  lengths are defined, and \<open>crypto_new_cipher_env\<close> returns a handle when its
  allocations succeed.  Whenever \<open>crypto_new_cipher_env\<close> returns a handle, whatever
  the allocations did, the key buffer is absent if the key length is 0 and otherwise
  is an allocated block of exactly that many bytes, and the same holds for the IV
  buffer and the IV length.
\<close>

theorem cipher_new_buffer_sizes:
  assumes "crypto_cipher_evp_cipher t 0 \<noteq> None"
  shows "\<exists>il kl. crypto_cipher_iv_length t = Inr il \<and> crypto_cipher_key_length t = Inr kl
     \<and> 0 \<le> il \<and> 0 \<le> kl
     \<and> (\<exists>w' e. crypto_new_cipher_env True True True True t w = Inr (Some (brk w), w')
           \<and> cipher_envs w' (brk w) = Some e \<and> ctype e = t
           \<and> buffer_sized w' (ckey e) kl \<and> buffer_sized w' (civ e) il)
     \<and> (\<forall>env_ok aux_ok iv_ok key_ok a w'.
           crypto_new_cipher_env env_ok aux_ok iv_ok key_ok t w = Inr (Some a, w') \<longrightarrow>
           (\<exists>e. cipher_envs w' a = Some e \<and> ctype e = t
              \<and> buffer_sized w' (ckey e) kl \<and> buffer_sized w' (civ e) il))"
proof -
  have sized: "\<exists>e. cipher_envs w' a = Some e \<and> ctype e = t
      \<and> (\<exists>il kl. crypto_cipher_iv_length t = Inr il \<and> crypto_cipher_key_length t = Inr kl
            \<and> buffer_sized w' (ckey e) kl \<and> buffer_sized w' (civ e) il)"
    if "crypto_new_cipher_env env_ok aux_ok iv_ok key_ok t w = Inr (Some a, w')"
    for env_ok aux_ok iv_ok key_ok a w'
    using that
    by (cases t; cases env_ok; cases aux_ok; cases iv_ok; cases key_ok)
      (auto simp add: new_cipher_defs buffer_sized_def)
  have made: "\<exists>w'. crypto_new_cipher_env True True True True t w = Inr (Some (brk w), w')"
    using assms by (cases t) (auto simp add: new_cipher_defs)
  have lens: "\<exists>il kl. crypto_cipher_iv_length t = Inr il \<and> crypto_cipher_key_length t = Inr kl
      \<and> 0 \<le> il \<and> 0 \<le> kl"
    using assms
    by (cases t)
      (simp_all add: crypto_cipher_iv_length_def crypto_cipher_key_length_def
        crypto_cipher_evp_cipher_def)
  then obtain il kl where l: "crypto_cipher_iv_length t = Inr il"
    "crypto_cipher_key_length t = Inr kl" "0 \<le> il" "0 \<le> kl"
    by blast
  from made obtain w1 where w1: "crypto_new_cipher_env True True True True t w = Inr (Some (brk w), w1)"
    by blast
  from sized [OF w1] l obtain e1 where e1: "cipher_envs w1 (brk w) = Some e1" "ctype e1 = t"
    "buffer_sized w1 (ckey e1) kl" "buffer_sized w1 (civ e1) il"
    by auto
  have every: "\<forall>env_ok aux_ok iv_ok key_ok a w'.
           crypto_new_cipher_env env_ok aux_ok iv_ok key_ok t w = Inr (Some a, w') \<longrightarrow>
           (\<exists>e. cipher_envs w' a = Some e \<and> ctype e = t
              \<and> buffer_sized w' (ckey e) kl \<and> buffer_sized w' (civ e) il)"
  proof (intro allI impI)
    fix env_ok aux_ok iv_ok key_ok a w'
    assume "crypto_new_cipher_env env_ok aux_ok iv_ok key_ok t w = Inr (Some a, w')"
    from sized [OF this] l
    show "\<exists>e. cipher_envs w' a = Some e \<and> ctype e = t
              \<and> buffer_sized w' (ckey e) kl \<and> buffer_sized w' (civ e) il"
      by auto
  qed
  from l w1 e1 every show ?thesis by blast
qed

theorem cipher_new_buffer_sizes_witness:
  "crypto_cipher_evp_cipher CRYPTO_CIPHER_IDENTITY 0 \<noteq> None
   \<and> crypto_cipher_evp_cipher CRYPTO_CIPHER_DES 0 \<noteq> None
   \<and> crypto_cipher_evp_cipher CRYPTO_CIPHER_RC4 0 \<noteq> None
   \<and> crypto_cipher_evp_cipher CRYPTO_CIPHER_3DES 0 \<noteq> None
   \<and> (\<exists>w' e. crypto_new_cipher_env True True True True CRYPTO_CIPHER_IDENTITY empty_world = Inr (Some 0, w')
         \<and> cipher_envs w' 0 = Some e \<and> ckey e = None \<and> civ e = None)
   \<and> (\<exists>w' e. crypto_new_cipher_env True True True True CRYPTO_CIPHER_DES empty_world = Inr (Some 0, w')
         \<and> cipher_envs w' 0 = Some e \<and> buffer_sized w' (ckey e) 8 \<and> buffer_sized w' (civ e) 8)
   \<and> (\<exists>w' e. crypto_new_cipher_env True True True True CRYPTO_CIPHER_RC4 empty_world = Inr (Some 0, w')
         \<and> cipher_envs w' 0 = Some e \<and> buffer_sized w' (ckey e) 16 \<and> buffer_sized w' (civ e) 16)
   \<and> (\<exists>w' e. crypto_new_cipher_env True True True True CRYPTO_CIPHER_3DES empty_world = Inr (Some 0, w')
         \<and> cipher_envs w' 0 = Some e \<and> buffer_sized w' (ckey e) 16 \<and> buffer_sized w' (civ e) 8)
   \<and> map_option length (bufs des_cipher_world 3) = Some 8
   \<and> map_option length (bufs des_cipher_world 2) = Some 8"
proof -
  have s: "crypto_cipher_evp_cipher CRYPTO_CIPHER_IDENTITY 0 \<noteq> None"
    "crypto_cipher_evp_cipher CRYPTO_CIPHER_DES 0 \<noteq> None"
    "crypto_cipher_evp_cipher CRYPTO_CIPHER_RC4 0 \<noteq> None"
    "crypto_cipher_evp_cipher CRYPTO_CIPHER_3DES 0 \<noteq> None"
    by (simp_all add: crypto_cipher_evp_cipher_def)
  have b: "brk empty_world = 0" by (simp add: empty_world_def)
  have i: "\<exists>w' e. crypto_new_cipher_env True True True True CRYPTO_CIPHER_IDENTITY empty_world = Inr (Some 0, w')
         \<and> cipher_envs w' 0 = Some e \<and> ckey e = None \<and> civ e = None"
    using cipher_new_buffer_sizes [OF s(1), of empty_world]
    by (auto simp add: b crypto_cipher_iv_length_def crypto_cipher_key_length_def buffer_sized_def)
  have d: "\<exists>w' e. crypto_new_cipher_env True True True True CRYPTO_CIPHER_DES empty_world = Inr (Some 0, w')
         \<and> cipher_envs w' 0 = Some e \<and> buffer_sized w' (ckey e) 8 \<and> buffer_sized w' (civ e) 8"
    using cipher_new_buffer_sizes [OF s(2), of empty_world]
    by (auto simp add: b crypto_cipher_iv_length_def crypto_cipher_key_length_def)
  have r: "\<exists>w' e. crypto_new_cipher_env True True True True CRYPTO_CIPHER_RC4 empty_world = Inr (Some 0, w')
         \<and> cipher_envs w' 0 = Some e \<and> buffer_sized w' (ckey e) 16 \<and> buffer_sized w' (civ e) 16"
    using cipher_new_buffer_sizes [OF s(3), of empty_world]
    by (auto simp add: b crypto_cipher_iv_length_def crypto_cipher_key_length_def)
  have t: "\<exists>w' e. crypto_new_cipher_env True True True True CRYPTO_CIPHER_3DES empty_world = Inr (Some 0, w')
         \<and> cipher_envs w' 0 = Some e \<and> buffer_sized w' (ckey e) 16 \<and> buffer_sized w' (civ e) 8"
    using cipher_new_buffer_sizes [OF s(4), of empty_world]
    by (auto simp add: b crypto_cipher_iv_length_def crypto_cipher_key_length_def)
  have sz: "map_option length (bufs des_cipher_world 3) = Some 8"
    "map_option length (bufs des_cipher_world 2) = Some 8"
    by (simp_all add: des_cipher_world_simps)
  from s i d r t sz show ?thesis by simp
qed

text \<open>
  When the \<open>malloc\<close> of the streaming context fails, its NULL result reaches
  \<open>EVP_CIPHER_CTX_init\<close>: the function neither returns a handle nor reports failure.
\<close>

lemma cipher_new_context_unchecked:
  assumes "crypto_cipher_evp_cipher t 0 \<noteq> None"
  shows "crypto_new_cipher_env True False iv_ok key_ok t w = Inl InvalidAccess"
  using assms by (cases t) (simp_all add: new_cipher_defs)

text \<open>
  C10, as stated, fails for a tag outside the four supported ones: the length lookup
  stops in \<open>assert(0)\<close> before \<open>crypto_new_cipher_env\<close> can return failure.
\<close>

theorem cipher_new_counterexample:
  "crypto_new_cipher_env True True True True (CIPHER_OTHER 99) empty_world = Inl AssertFailed"
  by (simp add: new_cipher_defs)

text \<open>
  C10, amended.  In a store where \<open>malloc\<close> hands out unused addresses:  for a tag
  outside the supported ones \<open>crypto_new_cipher_env\<close> stops in the assertion of the
  length lookup once the handle itself has been allocated, and returns NULL with the
  store untouched when that first allocation fails.  For a supported tag, when the
  allocation of the streaming context succeeds, it returns.  It returns a handle
  exactly when the handle and every buffer of non-zero length could be allocated;
  the handle then has its tag, an initialised context, and an allocated IV (key)
  buffer exactly when the IV (key) length is not 0.  Otherwise it returns NULL,
  every block allocated during the call has been freed, and the store holds what it
  held before.
\<close>

theorem cipher_new_all_or_nothing:
  assumes "unused_from_brk w"
  shows "(crypto_cipher_evp_cipher t 0 = None \<longrightarrow>
            crypto_new_cipher_env env_ok aux_ok iv_ok key_ok t w =
              (if env_ok then Inl AssertFailed else Inr (None, w)))
     \<and> (crypto_cipher_evp_cipher t 0 \<noteq> None \<longrightarrow>
          (\<exists>res w'. crypto_new_cipher_env env_ok True iv_ok key_ok t w = Inr (res, w')
     \<and> (res \<noteq> None \<longleftrightarrow>
          env_ok \<and> (iv_ok \<or> crypto_cipher_iv_length t = Inr 0)
                 \<and> (key_ok \<or> crypto_cipher_key_length t = Inr 0))
     \<and> (case res of
          Some a \<Rightarrow>
            a = brk w
            \<and> (\<exists>e x. cipher_envs w' a = Some e \<and> ctype e = t
                  \<and> caux e = Some x \<and> ctxs w' x = Some CtxInit
                  \<and> (\<forall>i. civ e = Some i \<longrightarrow> bufs w' i \<noteq> None)
                  \<and> (\<forall>k. ckey e = Some k \<longrightarrow> bufs w' k \<noteq> None)
                  \<and> (civ e = None \<longleftrightarrow> crypto_cipher_iv_length t = Inr 0)
                  \<and> (ckey e = None \<longleftrightarrow> crypto_cipher_key_length t = Inr 0))
        | None \<Rightarrow>
            trace w' = trace w @ map Free (rev [brk w..<brk w'])
            \<and> cipher_envs w' = cipher_envs w \<and> ctxs w' = ctxs w \<and> bufs w' = bufs w
            \<and> pk_envs w' = pk_envs w \<and> rsas w' = rsas w)))"
proof (intro conjI impI)
  assume "crypto_cipher_evp_cipher t 0 = None"
  then show "crypto_new_cipher_env env_ok aux_ok iv_ok key_ok t w =
              (if env_ok then Inl AssertFailed else Inr (None, w))"
    by (cases t) (simp_all add: new_cipher_defs)
next
  assume "crypto_cipher_evp_cipher t 0 \<noteq> None"
  with assms show "\<exists>res w'. crypto_new_cipher_env env_ok True iv_ok key_ok t w = Inr (res, w')
     \<and> (res \<noteq> None \<longleftrightarrow>
          env_ok \<and> (iv_ok \<or> crypto_cipher_iv_length t = Inr 0)
                 \<and> (key_ok \<or> crypto_cipher_key_length t = Inr 0))
     \<and> (case res of
          Some a \<Rightarrow>
            a = brk w
            \<and> (\<exists>e x. cipher_envs w' a = Some e \<and> ctype e = t
                  \<and> caux e = Some x \<and> ctxs w' x = Some CtxInit
                  \<and> (\<forall>i. civ e = Some i \<longrightarrow> bufs w' i \<noteq> None)
                  \<and> (\<forall>k. ckey e = Some k \<longrightarrow> bufs w' k \<noteq> None)
                  \<and> (civ e = None \<longleftrightarrow> crypto_cipher_iv_length t = Inr 0)
                  \<and> (ckey e = None \<longleftrightarrow> crypto_cipher_key_length t = Inr 0))
        | None \<Rightarrow>
            trace w' = trace w @ map Free (rev [brk w..<brk w'])
            \<and> cipher_envs w' = cipher_envs w \<and> ctxs w' = ctxs w \<and> bufs w' = bufs w
            \<and> pk_envs w' = pk_envs w \<and> rsas w' = rsas w)"
    by (cases t; cases env_ok; cases iv_ok; cases key_ok)
      (auto simp add: new_cipher_defs unused_from_brk_def fun_eq_iff)
qed

theorem cipher_new_all_or_nothing_witness:
  "crypto_cipher_evp_cipher CRYPTO_CIPHER_DES 0 \<noteq> None
   \<and> crypto_cipher_evp_cipher (CIPHER_OTHER 7) 0 = None
   \<and> unused_from_brk empty_world
   \<and> crypto_new_cipher_env True True True True (CIPHER_OTHER 7) empty_world = Inl AssertFailed
   \<and> crypto_new_cipher_env False True True True (CIPHER_OTHER 7) empty_world = Inr (None, empty_world)
   \<and> (\<exists>w'. crypto_new_cipher_env True True True True CRYPTO_CIPHER_DES empty_world = Inr (Some 0, w')
         \<and> (\<exists>e x. cipher_envs w' 0 = Some e \<and> caux e = Some x \<and> ctxs w' x = Some CtxInit
               \<and> civ e \<noteq> None \<and> ckey e \<noteq> None))
   \<and> (\<exists>w'. crypto_new_cipher_env True True True False CRYPTO_CIPHER_DES empty_world = Inr (None, w')
         \<and> trace w' = map Free (rev [0..<brk w'])
         \<and> cipher_envs w' = cipher_envs empty_world \<and> ctxs w' = ctxs empty_world
         \<and> bufs w' = bufs empty_world)"
proof -
  have h1: "crypto_cipher_evp_cipher CRYPTO_CIPHER_DES 0 \<noteq> None"
    by (simp add: crypto_cipher_evp_cipher_def)
  have h0: "crypto_cipher_evp_cipher (CIPHER_OTHER 7) 0 = None"
    by (simp add: crypto_cipher_evp_cipher_def)
  have h2: "unused_from_brk empty_world"
    by (simp add: unused_from_brk_def empty_world_def)
  have kl: "crypto_cipher_key_length CRYPTO_CIPHER_DES = Inr 8"
    by (simp add: crypto_cipher_key_length_def)
  have il: "crypto_cipher_iv_length CRYPTO_CIPHER_DES = Inr 8"
    by (simp add: crypto_cipher_iv_length_def)
  have e0: "brk empty_world = 0" "trace empty_world = []"
    by (simp_all add: empty_world_def)
  have a1: "crypto_new_cipher_env True True True True (CIPHER_OTHER 7) empty_world = Inl AssertFailed"
    using cipher_new_all_or_nothing [OF h2, of "CIPHER_OTHER 7" True True True True] h0 by simp
  have a2: "crypto_new_cipher_env False True True True (CIPHER_OTHER 7) empty_world = Inr (None, empty_world)"
    using cipher_new_all_or_nothing [OF h2, of "CIPHER_OTHER 7" False True True True] h0 by simp
  have ok: "\<exists>w'. crypto_new_cipher_env True True True True CRYPTO_CIPHER_DES empty_world = Inr (Some 0, w')
         \<and> (\<exists>e x. cipher_envs w' 0 = Some e \<and> caux e = Some x \<and> ctxs w' x = Some CtxInit
               \<and> civ e \<noteq> None \<and> ckey e \<noteq> None)"
    using cipher_new_all_or_nothing [OF h2, of CRYPTO_CIPHER_DES True True True True] h1
    by (auto simp add: kl il e0 split: option.splits)
  have ko: "\<exists>w'. crypto_new_cipher_env True True True False CRYPTO_CIPHER_DES empty_world = Inr (None, w')
         \<and> trace w' = map Free (rev [0..<brk w'])
         \<and> cipher_envs w' = cipher_envs empty_world \<and> ctxs w' = ctxs empty_world
         \<and> bufs w' = bufs empty_world"
    using cipher_new_all_or_nothing [OF h2, of CRYPTO_CIPHER_DES True True True False] h1
    by (auto simp add: kl il e0 split: option.splits)
  from h1 h0 h2 a1 a2 ok ko show ?thesis by simp
qed

end
